theory Spec2Isabelle
  imports Complex_Main "HOL-Library.Multiset" "HOL-Library.State_Monad"
begin

section \<open>JavaScript primitives used by the search engine\<close>

text \<open>
  JavaScript numbers are read as real numbers: every comparison the handlers make is
  between values far from the limits of double precision, and the only rounding the
  source performs itself (\<^verbatim>\<open>toFixed\<close>) is written out below.
\<close>

definition atan2 :: "real \<Rightarrow> real \<Rightarrow> real" where
  \<comment> \<open>\<^verbatim>\<open>Math.atan2(y, x)\<close>: the angle of the point (x, y).\<close>
  "atan2 y x =
     (if 0 < x then arctan (y / x)
      else if x < 0 \<and> 0 \<le> y then arctan (y / x) + pi
      else if x < 0 \<and> y < 0 then arctan (y / x) - pi
      else if 0 < y then pi / 2
      else if y < 0 then - (pi / 2)
      else 0)"

definition toFixed :: "nat \<Rightarrow> real \<Rightarrow> real" where
  \<comment> \<open>\<^verbatim>\<open>parseFloat(x.toFixed(d))\<close>: the nearest multiple of \<open>10\<^sup>-\<^sup>d\<close>, a tie going away
      from zero (\<^verbatim>\<open>toFixed\<close> rounds the absolute value and picks the larger candidate).\<close>
  "toFixed d x =
     (if x < 0 then - (of_int (round (- x * 10 ^ d)) / 10 ^ d)
      else of_int (round (x * 10 ^ d)) / 10 ^ d)"

fun insort_cmp :: "('a \<Rightarrow> 'a \<Rightarrow> real) \<Rightarrow> 'a \<Rightarrow> 'a list \<Rightarrow> 'a list" where
  "insort_cmp cmp x [] = [x]"
| "insort_cmp cmp x (y # ys) =
     (if cmp x y \<le> 0 then x # y # ys else y # insort_cmp cmp x ys)"

definition js_sort :: "('a \<Rightarrow> 'a \<Rightarrow> real) \<Rightarrow> 'a list \<Rightarrow> 'a list" where
  \<comment> \<open>\<^verbatim>\<open>Array.prototype.sort(cmp)\<close>: a stable sort; an element stays before every later
      element it compares equal to.\<close>
  "js_sort cmp xs = foldr (insort_cmp cmp) xs []"

definition js_slice :: "'a list \<Rightarrow> int \<Rightarrow> int \<Rightarrow> 'a list" where
  \<comment> \<open>\<^verbatim>\<open>Array.prototype.slice(start, end)\<close>: a negative index counts from the end, and
      both indices are clamped to the array.\<close>
  "js_slice xs start fin =
     (let n = int (length xs);
          k = (if start < 0 then max (n + start) 0 else min start n);
          f = (if fin < 0 then max (n + fin) 0 else min fin n)
      in take (nat (f - k)) (drop (nat k) xs))"

subsection \<open>Strings\<close>

text \<open>
  A string is a list of 8-bit code units. \<^verbatim>\<open>toLowerCase\<close> and the class \<^verbatim>\<open>\s\<close> are
  those of JavaScript on the Latin-1 range.
\<close>

definition isSpace :: "char \<Rightarrow> bool" where
  "isSpace c = (let n = (of_char c :: nat) in (9 \<le> n \<and> n \<le> 13) \<or> n = 32 \<or> n = 160)"

definition toLowerChar :: "char \<Rightarrow> char" where
  "toLowerChar c =
     (let n = (of_char c :: nat)
      in if (65 \<le> n \<and> n \<le> 90) \<or> (192 \<le> n \<and> n \<le> 222 \<and> n \<noteq> 215)
         then char_of (n + 32) else c)"

definition toLowerCase :: "string \<Rightarrow> string" where
  "toLowerCase s = map toLowerChar s"

fun str_includes :: "string \<Rightarrow> string \<Rightarrow> bool" where
  \<comment> \<open>\<^verbatim>\<open>s.includes(t)\<close>: \<open>t\<close> occurs in \<open>s\<close> as a substring.\<close>
  "str_includes [] t = (t = [])"
| "str_includes (c # s) t = (take (length t) (c # s) = t \<or> str_includes s t)"

function split_ws :: "string \<Rightarrow> string \<Rightarrow> string list" where
  \<comment> \<open>\<^verbatim>\<open>s.split(/\s+/)\<close>, with the field read so far as first argument: every maximal
      run of white space separates two fields, so that leading or trailing white space
      gives an empty first or last field.\<close>
  "split_ws cur [] = [cur]"
| "split_ws cur (c # cs) =
     (if isSpace c then cur # split_ws [] (dropWhile isSpace cs) else split_ws (cur @ [c]) cs)"
  by pat_completeness auto
termination
  by (relation "measure (\<lambda>(cur, s). length s)") (auto simp: length_dropWhile_le less_Suc_eq_le)

fun join :: "string \<Rightarrow> string list \<Rightarrow> string" where
  "join sep [] = []"
| "join sep [x] = x"
| "join sep (x # y # ys) = x @ sep @ join sep (y # ys)"

definition trim :: "string \<Rightarrow> string" where
  "trim s = rev (dropWhile isSpace (rev (dropWhile isSpace s)))"

fun localeCompare :: "string \<Rightarrow> string \<Rightarrow> real" where
  \<comment> \<open>\<^verbatim>\<open>a.localeCompare(b)\<close> read as the comparison of code units; the collation of the
      host's locale is not part of the repository, and no statement below depends on it.\<close>
  "localeCompare [] [] = 0"
| "localeCompare [] (y # ys) = -1"
| "localeCompare (x # xs) [] = 1"
| "localeCompare (x # xs) (y # ys) =
     (if (of_char x :: nat) < of_char y then -1
      else if (of_char y :: nat) < of_char x then 1
      else localeCompare xs ys)"

section \<open>Geolocation utilities (utils/geo.js)\<close>

definition toRadians :: "real \<Rightarrow> real" where
  "toRadians deg = deg * (pi / 180)"

definition haversine :: "real \<Rightarrow> real \<Rightarrow> real \<Rightarrow> real \<Rightarrow> real" where
  \<comment> \<open>The value \<^verbatim>\<open>R * c\<close> of \<^verbatim>\<open>calculateDistance\<close>, before it is rounded.\<close>
  "haversine lat1 lng1 lat2 lng2 =
     (let R = 3959;
          dLat = toRadians (lat2 - lat1);
          dLng = toRadians (lng2 - lng1);
          a = (sin (dLat / 2))\<^sup>2 +
              cos (toRadians lat1) * cos (toRadians lat2) * (sin (dLng / 2))\<^sup>2;
          c = 2 * atan2 (sqrt a) (sqrt (1 - a))
      in R * c)"

definition calculateDistance :: "real \<Rightarrow> real \<Rightarrow> real \<Rightarrow> real \<Rightarrow> real" where
  "calculateDistance lat1 lng1 lat2 lng2 = toFixed 1 (haversine lat1 lng1 lat2 lng2)"

record box =
  minLat :: real
  maxLat :: real
  minLng :: real
  maxLng :: real

definition getBoundingBox :: "real \<Rightarrow> real \<Rightarrow> real \<Rightarrow> box" where
  \<comment> \<open>At latitude 90 or -90 the real cosine is 0 and HOL's division gives 0, where the
      source divides by a tiny non-zero double; the model is the source's for
      latitudes strictly between the poles.\<close>
  "getBoundingBox lat0 lng0 radiusMiles =
     (let latDelta = radiusMiles / 69.0;
          lngDelta = radiusMiles / (69.0 * cos (toRadians lat0))
      in \<lparr> minLat = lat0 - latDelta, maxLat = lat0 + latDelta,
           minLng = lng0 - lngDelta, maxLng = lng0 + lngDelta \<rparr>)"

record store =
  storeId :: string
  retailer :: string
  brand :: string
  name :: string
  address :: string
  lat :: real
  lng :: real

text \<open>A store with the distance \<^verbatim>\<open>findNearbyStores\<close> attaches: \<^verbatim>\<open>{ ...s, distance }\<close>.\<close>

record nearby = store +
  distance :: real

definition withDistance :: "store \<Rightarrow> real \<Rightarrow> nearby" where
  "withDistance s d = store.extend s (nearby.fields d)"

definition inBox :: "box \<Rightarrow> store \<Rightarrow> bool" where
  "inBox b s \<longleftrightarrow> lat s \<ge> minLat b \<and> lat s \<le> maxLat b \<and> lng s \<ge> minLng b \<and> lng s \<le> maxLng b"

definition findNearbyStores :: "store list \<Rightarrow> real \<Rightarrow> real \<Rightarrow> real \<Rightarrow> nearby list" where
  "findNearbyStores stores lat0 lng0 radiusMiles =
     (let bx = getBoundingBox lat0 lng0 radiusMiles
      in js_sort (\<lambda>a b. distance a - distance b)
           (filter (\<lambda>s. distance s \<le> radiusMiles)
              (map (\<lambda>s. withDistance s (calculateDistance lat0 lng0 (lat s) (lng s)))
                 (filter (inBox bx) stores))))"

record estimate =
  pickup :: string
  delivery :: string

definition estimateDeliveryTime :: "real \<Rightarrow> estimate" where
  "estimateDeliveryTime distanceMiles =
     (if distanceMiles \<le> 2 then \<lparr> pickup = ''10-15 min'', delivery = ''15-25 min'' \<rparr>
      else if distanceMiles \<le> 5 then \<lparr> pickup = ''15-25 min'', delivery = ''25-35 min'' \<rparr>
      else if distanceMiles \<le> 10 then \<lparr> pickup = ''20-30 min'', delivery = ''35-50 min'' \<rparr>
      else if distanceMiles \<le> 20 then \<lparr> pickup = ''30-45 min'', delivery = ''50-75 min'' \<rparr>
      else \<lparr> pickup = ''45-60 min'', delivery = ''75-90 min'' \<rparr>)"

section \<open>Catalog, inventory and configuration (models/database.js, config.js)\<close>

record product =
  sku :: string
  p_name :: string
  p_price :: real
  category :: string
  p_brand :: "string option"
  image :: "string option"
  p_keywords :: "string list"
  retailers :: "string list"

record inventory =
  inv_id :: string
  inv_storeId :: string
  productSku :: string
  productName :: string
  price :: real
  quantity :: int
  inStock :: bool

text \<open>The module-level arrays the routes share.\<close>

record db =
  PRODUCTS :: "product list"
  allStores :: "store list"
  inventoryOf :: "inventory list"

definition maxRadius :: real where "maxRadius = 50"
definition defaultRadius :: real where "defaultRadius = 10"
definition defaultLat :: real where "defaultLat = 40.6892"
definition defaultLng :: real where "defaultLng = -73.9857"
definition defaultLimit :: int where "defaultLimit = 20"

section \<open>Search route (routes/search.js)\<close>

subsection \<open>The request\<close>

text \<open>
  What the body holds for a coordinate: nothing, a value \<^verbatim>\<open>parseFloat\<close> reads as a
  number, or a value it reads as \<^verbatim>\<open>NaN\<close>.
\<close>

datatype coord = Absent | NotANumber | Number real

datatype jsnum = NaN | Num real

fun parseFloat :: "coord \<Rightarrow> jsnum" where
  "parseFloat Absent = NaN"
| "parseFloat NotANumber = NaN"
| "parseFloat (Number x) = Num x"

fun orDefault :: "jsnum \<Rightarrow> real \<Rightarrow> real" where
  \<comment> \<open>\<^verbatim>\<open>v || d\<close> on numbers: \<^verbatim>\<open>NaN\<close> and 0 are falsy.\<close>
  "orDefault NaN d = d"
| "orDefault (Num x) d = (if x = 0 then d else x)"

record request =
  query :: "string option"
  r_lat :: coord
  r_lng :: coord
  radius :: "real option"
  r_category :: "string option"
  minPrice :: "real option"
  maxPrice :: "real option"
  sortBy :: "string option"
  sortOrder :: "string option"
  page :: "int option"
  limit :: "int option"
  r_retailer :: "string option"
  inStockOnly :: "bool option"

definition sanitize :: "request \<Rightarrow> request" where
  \<comment> \<open>The sanitizers of \<^verbatim>\<open>rules.search\<close>, which rewrite the body before the handler
      runs: \<^verbatim>\<open>body('query').optional({ values: 'falsy' }).trim()\<close> and
      \<^verbatim>\<open>body('category').optional().trim()\<close>.\<close>
  "sanitize req =
     req \<lparr> query := (case query req of None \<Rightarrow> None
                      | Some s \<Rightarrow> if s = [] then Some s else Some (trim s)),
           r_category := map_option trim (r_category req) \<rparr>"

subsection \<open>Step 1: text scoring\<close>

record scored = product +
  relevanceScore :: int

definition withScore :: "product \<Rightarrow> int \<Rightarrow> scored" where
  \<comment> \<open>\<^verbatim>\<open>{ ...product, relevanceScore: score }\<close>\<close>
  "withScore p n = product.extend p (scored.fields n)"

definition searchTerms :: "string \<Rightarrow> string list" where
  \<comment> \<open>\<^verbatim>\<open>q.toLowerCase().split(/\s+/).filter(Boolean)\<close>\<close>
  "searchTerms q = filter (\<lambda>t. t \<noteq> []) (split_ws [] (toLowerCase q))"

definition relevance :: "string list \<Rightarrow> product \<Rightarrow> int" where
  "relevance terms p =
     (let nameLower = toLowerCase (p_name p);
          keywordStr = toLowerCase (join '' '' (p_keywords p))
      in fold (\<lambda>term score.
           let s1 = (if str_includes nameLower term then score + 3 else score);
               s2 = (if str_includes keywordStr term then s1 + 2 else s1)
           in (if str_includes (category p) term then s2 + 1 else s2))
         terms 0)"

definition textMatch :: "product list \<Rightarrow> string list \<Rightarrow> scored list" where
  "textMatch products terms =
     (if length terms > 0
      then filter (\<lambda>p. relevanceScore p > 0) (map (\<lambda>p. withScore p (relevance terms p)) products)
      else map (\<lambda>p. withScore p 1) products)"

subsection \<open>Steps 2 and 3: category and retailer\<close>

definition truthy :: "string option \<Rightarrow> bool" where
  "truthy v = (case v of None \<Rightarrow> False | Some s \<Rightarrow> s \<noteq> [])"

definition matchingProducts :: "product list \<Rightarrow> request \<Rightarrow> scored list" where
  "matchingProducts products req =
     (let q = (case query req of None \<Rightarrow> [] | Some s \<Rightarrow> s);
          m1 = textMatch products (searchTerms q);
          m2 = (if truthy (r_category req)
                then filter (\<lambda>p. category p = toLowerCase (the (r_category req))) m1 else m1)
      in if truthy (r_retailer req)
         then filter (\<lambda>p. toLowerCase (the (r_retailer req)) \<in> set (retailers p)) m2 else m2)"

subsection \<open>Step 4: nearby stores\<close>

definition userLat :: "request \<Rightarrow> real" where
  "userLat req = orDefault (parseFloat (r_lat req)) defaultLat"

definition userLng :: "request \<Rightarrow> real" where
  "userLng req = orDefault (parseFloat (r_lng req)) defaultLng"

definition searchRadius :: "request \<Rightarrow> real" where
  \<comment> \<open>\<^verbatim>\<open>Math.min(parseFloat(radius), config.maxRadius)\<close>, the radius defaulting to
      \<^verbatim>\<open>config.defaultRadius\<close>; \<^verbatim>\<open>rules.search\<close> admits a float only.\<close>
  "searchRadius req = min (case radius req of None \<Rightarrow> defaultRadius | Some r \<Rightarrow> r) maxRadius"

definition nearbyStores :: "db \<Rightarrow> request \<Rightarrow> nearby list" where
  "nearbyStores d req = findNearbyStores (allStores d) (userLat req) (userLng req) (searchRadius req)"

definition storeMapOf :: "nearby list \<Rightarrow> (string \<rightharpoonup> nearby)" where
  \<comment> \<open>\<^verbatim>\<open>for (const s of nearbyStores) storeMap[s.storeId] = s\<close>\<close>
  "storeMapOf ns = fold (\<lambda>s m. m(storeId s \<mapsto> s)) ns Map.empty"

subsection \<open>Step 5: inventory at nearby stores, best price, nearest store\<close>

record productSummary =
  ps_sku :: string
  ps_name :: string
  ps_category :: string
  ps_image :: "string option"
  ps_brand :: "string option"
  basePrice :: real

record nearestStoreInfo =
  ns_id :: string
  ns_name :: string
  ns_brand :: string
  ns_address :: string
  ns_distance :: real
  deliveryEstimate :: estimate
  ns_price :: real
  ns_quantity :: int

record storeEntry =
  se_storeId :: string
  se_name :: "string option"
  se_brand :: "string option"
  se_distance :: "real option"
  se_price :: real
  se_quantity :: int

text \<open>
  One search result. The links (\<^verbatim>\<open>retailerKey\<close>, \<^verbatim>\<open>buyUrl\<close>, \<^verbatim>\<open>storeUrl\<close>) come from
  utils/deep-links.js, are computed from the fields kept here and feed nothing else;
  they are left out.
\<close>

record result =
  res_product :: productSummary
  bestPrice :: real
  storeCount :: nat
  nearestStore :: "nearestStoreInfo option"
  res_allStores :: "storeEntry list"
  res_relevanceScore :: int

definition productInventory :: "inventory list \<Rightarrow> string set \<Rightarrow> bool \<Rightarrow> scored \<Rightarrow> inventory list" where
  "productInventory invs nearbyStoreIds stockOnly p =
     filter (\<lambda>iv. productSku iv = sku p \<and> inv_storeId iv \<in> nearbyStoreIds \<and>
                    (\<not> stockOnly \<or> inStock iv)) invs"

definition priceOk :: "real option \<Rightarrow> real option \<Rightarrow> inventory \<Rightarrow> bool" where
  "priceOk lo hi iv =
     (if lo \<noteq> None \<and> price iv < the lo then False
      else if hi \<noteq> None \<and> price iv > the hi then False
      else True)"

definition distOr999 :: "nearby option \<Rightarrow> real" where
  \<comment> \<open>\<^verbatim>\<open>storeMap[id]?.distance || 999\<close>: a missing store and a distance of 0 both give 999.\<close>
  "distOr999 s = (case s of None \<Rightarrow> 999 | Some n \<Rightarrow> if distance n = 0 then 999 else distance n)"

definition bestPriceOf :: "inventory list \<Rightarrow> real" where
  \<comment> \<open>\<^verbatim>\<open>[...filteredInv].sort((a, b) => a.price - b.price)[0].price\<close>\<close>
  "bestPriceOf filteredInv = price (hd (js_sort (\<lambda>a b. price a - price b) filteredInv))"

definition nearestInvOf :: "(string \<rightharpoonup> nearby) \<Rightarrow> inventory list \<Rightarrow> inventory" where
  "nearestInvOf storeMap filteredInv =
     hd (js_sort (\<lambda>a b. distOr999 (storeMap (inv_storeId a)) - distOr999 (storeMap (inv_storeId b)))
           filteredInv)"

definition shapeResult :: "(string \<rightharpoonup> nearby) \<Rightarrow> scored \<Rightarrow> inventory list \<Rightarrow> result" where
  \<comment> \<open>The object pushed to \<^verbatim>\<open>results\<close>, for a non-empty \<open>filteredInv\<close>.\<close>
  "shapeResult storeMap p filteredInv =
     (let nearestInv = nearestInvOf storeMap filteredInv
      in \<lparr> res_product = \<lparr> ps_sku = sku p, ps_name = p_name p, ps_category = category p,
                           ps_image = image p,
                           ps_brand = (case p_brand p of None \<Rightarrow> None
                                       | Some b \<Rightarrow> if b = [] then None else Some b),
                           basePrice = p_price p \<rparr>,
           bestPrice = bestPriceOf filteredInv,
           storeCount = length filteredInv,
           nearestStore =
             map_option (\<lambda>n. \<lparr> ns_id = storeId n, ns_name = name n, ns_brand = brand n,
                                ns_address = address n, ns_distance = distance n,
                                deliveryEstimate = estimateDeliveryTime (distance n),
                                ns_price = price nearestInv, ns_quantity = quantity nearestInv \<rparr>)
               (storeMap (inv_storeId nearestInv)),
           res_allStores =
             map (\<lambda>iv. \<lparr> se_storeId = inv_storeId iv,
                           se_name = map_option name (storeMap (inv_storeId iv)),
                           se_brand = map_option brand (storeMap (inv_storeId iv)),
                           se_distance = map_option distance (storeMap (inv_storeId iv)),
                           se_price = price iv, se_quantity = quantity iv \<rparr>)
               (js_slice filteredInv 0 5),
           res_relevanceScore = relevanceScore p \<rparr>)"

definition filteredInvOf ::
  "inventory list \<Rightarrow> nearby list \<Rightarrow> bool \<Rightarrow> real option \<Rightarrow> real option \<Rightarrow> scored \<Rightarrow> inventory list" where
  \<comment> \<open>The array \<^verbatim>\<open>filteredInv\<close> of one product: its records at nearby stores (in stock, when
      asked so) that pass the price filter.\<close>
  "filteredInvOf invs nearbyS stockOnly lo hi p =
     filter (priceOk lo hi) (productInventory invs (set (map storeId nearbyS)) stockOnly p)"

definition productResult ::
  "inventory list \<Rightarrow> nearby list \<Rightarrow> bool \<Rightarrow> real option \<Rightarrow> real option \<Rightarrow> scored \<Rightarrow> result option" where
  \<comment> \<open>One turn of the loop over \<^verbatim>\<open>matchingProducts\<close>: \<open>None\<close> is \<^verbatim>\<open>continue\<close>.\<close>
  "productResult invs nearbyS stockOnly lo hi p =
     (if length (productInventory invs (set (map storeId nearbyS)) stockOnly p) = 0 then None
      else if length (filteredInvOf invs nearbyS stockOnly lo hi p) = 0 then None
      else Some (shapeResult (storeMapOf nearbyS) p (filteredInvOf invs nearbyS stockOnly lo hi p)))"

definition stockOnlyOf :: "request \<Rightarrow> bool" where
  \<comment> \<open>\<^verbatim>\<open>inStockOnly = true\<close> in the destructuring of the body.\<close>
  "stockOnlyOf req = (case inStockOnly req of None \<Rightarrow> True | Some b \<Rightarrow> b)"

definition surviving :: "db \<Rightarrow> request \<Rightarrow> scored \<Rightarrow> inventory list" where
  \<comment> \<open>\<^verbatim>\<open>filteredInv\<close> in the handler, for the product \<open>p\<close>.\<close>
  "surviving d req p =
     filteredInvOf (inventoryOf d) (nearbyStores d req) (stockOnlyOf req) (minPrice req) (maxPrice req) p"

definition nearbyRecords :: "db \<Rightarrow> request \<Rightarrow> scored \<Rightarrow> inventory list" where
  \<comment> \<open>\<^verbatim>\<open>productInventory\<close> in the handler, for the product \<open>p\<close>: its records at nearby stores,
      before the price filter.\<close>
  "nearbyRecords d req p =
     productInventory (inventoryOf d) (set (map storeId (nearbyStores d req))) (stockOnlyOf req) p"

definition searchResults :: "db \<Rightarrow> request \<Rightarrow> result list" where
  \<comment> \<open>The array \<^verbatim>\<open>results\<close> when the loop of step 5 ends.\<close>
  "searchResults d req =
     List.map_filter
       (productResult (inventoryOf d) (nearbyStores d req)
          (stockOnlyOf req) (minPrice req) (maxPrice req))
       (matchingProducts (PRODUCTS d) req)"

subsection \<open>Step 6: sorting\<close>

definition nearestDistOr999 :: "result \<Rightarrow> real" where
  \<comment> \<open>\<^verbatim>\<open>r.nearestStore?.distance || 999\<close>\<close>
  "nearestDistOr999 r =
     (case nearestStore r of None \<Rightarrow> 999
      | Some n \<Rightarrow> if ns_distance n = 0 then 999 else ns_distance n)"

definition sortResults :: "string \<Rightarrow> string \<Rightarrow> result list \<Rightarrow> result list" where
  "sortResults sby ord rs =
     (if sby = ''price'' then
        js_sort (\<lambda>a b. if ord = ''desc'' then bestPrice b - bestPrice a
                        else bestPrice a - bestPrice b) rs
      else if sby = ''distance'' then
        js_sort (\<lambda>a b. let da = nearestDistOr999 a; db = nearestDistOr999 b
                        in if ord = ''desc'' then db - da else da - db) rs
      else if sby = ''name'' then
        js_sort (\<lambda>a b. if ord = ''desc''
                        then localeCompare (ps_name (res_product b)) (ps_name (res_product a))
                        else localeCompare (ps_name (res_product a)) (ps_name (res_product b))) rs
      else js_sort (\<lambda>a b. real_of_int (res_relevanceScore b - res_relevanceScore a)) rs)"

definition sortedResults :: "db \<Rightarrow> request \<Rightarrow> result list" where
  "sortedResults d req =
     sortResults (case sortBy req of None \<Rightarrow> ''relevance'' | Some s \<Rightarrow> s)
                 (case sortOrder req of None \<Rightarrow> ''asc'' | Some s \<Rightarrow> s)
                 (searchResults d req)"

subsection \<open>Step 7: pagination and the response\<close>

record pagination =
  pg_page :: int
  pg_limit :: int
  totalResults :: int
  totalPages :: int

record response =
  rsp_query :: string
  rsp_lat :: real
  rsp_lng :: real
  rsp_radius :: real
  rsp_pagination :: pagination
  results :: "result list"

definition pageOf :: "request \<Rightarrow> int" where
  "pageOf req = (case page req of None \<Rightarrow> 1 | Some n \<Rightarrow> n)"

definition limitOf :: "request \<Rightarrow> int" where
  "limitOf req = (case limit req of None \<Rightarrow> defaultLimit | Some n \<Rightarrow> n)"

definition paginate :: "result list \<Rightarrow> int \<Rightarrow> int \<Rightarrow> pagination \<times> result list" where
  \<comment> \<open>\<^verbatim>\<open>rules.search\<close> admits integers \<open>page \<ge> 1\<close> and \<open>1 \<le> limit \<le> 100\<close>, so the division
      is by a positive number.\<close>
  "paginate rs pg lmt =
     (let total = int (length rs);
          pages = \<lceil>real_of_int total / real_of_int lmt\<rceil>;
          offset = (pg - 1) * lmt
      in (\<lparr> pg_page = pg, pg_limit = lmt, totalResults = total, totalPages = pages \<rparr>,
          js_slice rs offset (offset + lmt)))"

definition search :: "db \<Rightarrow> request \<Rightarrow> response" where
  "search d req =
     (let (pgn, paginatedResults) = paginate (sortedResults d req) (pageOf req) (limitOf req)
      in \<lparr> rsp_query = (case query req of None \<Rightarrow> [] | Some s \<Rightarrow> s),
           rsp_lat = userLat req, rsp_lng = userLng req, rsp_radius = searchRadius req,
           rsp_pagination = pgn, results = paginatedResults \<rparr>)"

definition searchRoute :: "db \<Rightarrow> request \<Rightarrow> response" where
  \<comment> \<open>The handler behind the sanitizers of its route.\<close>
  "searchRoute d body = search d (sanitize body)"

section \<open>Order placement (routes/orders.js)\<close>


record orderItem =
  ol_inventoryId :: string
  ol_storeId :: string
  ol_productName :: string
  ol_price :: real
  ol_quantity :: int
  lineTotal :: real



record order =
  items :: "orderItem list"
  subtotal :: real
  deliveryFee :: real
  tax :: real
  total :: real





section \<open>The search handler on a store of arrays\<close>

text \<open>
  For the effect of the handler on the arrays the routes share, arrays are mutable
  objects in a store: \<^verbatim>\<open>filter\<close>, \<^verbatim>\<open>map\<close>, \<^verbatim>\<open>slice\<close> and the spread \<^verbatim>\<open>[...a]\<close> make
  a new array, \<^verbatim>\<open>sort\<close> and \<^verbatim>\<open>push\<close> change the array they are called on. The
  elements are values: the handler assigns to no field of an object it was given
  (\<^verbatim>\<open>{ ...product, relevanceScore }\<close> and \<^verbatim>\<open>{ ...s, distance }\<close> build new objects), and
  the only objects it writes to besides arrays, \<^verbatim>\<open>storeMap\<close> and \<^verbatim>\<open>nearbyStoreIds\<close>, are
  its own.
\<close>

datatype elem =
    EProduct (theProduct: product)
  | EScored (theScored: scored)
  | EStore (theStore: store)
  | ENearby (theNearby: nearby)
  | EInventory (theInventory: inventory)
  | EEntry (theEntry: storeEntry)
  | EResult (theResult: result)
  | EString (theString: string)

text \<open>
  An array holds elements of one kind, and a selector is applied only to elements of
  its kind. The store gives every address its array; the addresses below \<open>free\<close> are
  the ones in use.
\<close>

type_synonym ref = nat

record heap =
  cells :: "ref \<Rightarrow> elem list"
  free :: ref

definition alloc :: "elem list \<Rightarrow> (heap, ref) state" where
  "alloc xs = State (\<lambda>h. (free h, h \<lparr> cells := (cells h)(free h := xs), free := Suc (free h) \<rparr>))"

definition readA :: "ref \<Rightarrow> (heap, elem list) state" where
  "readA a = State (\<lambda>h. (cells h a, h))"

definition writeA :: "ref \<Rightarrow> elem list \<Rightarrow> (heap, unit) state" where
  "writeA a xs = State (\<lambda>h. ((), h \<lparr> cells := (cells h)(a := xs) \<rparr>))"

definition arr_new :: "(heap, ref) state" where
  \<comment> \<open>\<^verbatim>\<open>[]\<close>\<close>
  "arr_new = alloc []"

definition arr_filter :: "(elem \<Rightarrow> bool) \<Rightarrow> ref \<Rightarrow> (heap, ref) state" where
  "arr_filter P a = do { xs \<leftarrow> readA a; alloc (filter P xs) }"

definition arr_map :: "(elem \<Rightarrow> elem) \<Rightarrow> ref \<Rightarrow> (heap, ref) state" where
  "arr_map f a = do { xs \<leftarrow> readA a; alloc (map f xs) }"

definition arr_copy :: "ref \<Rightarrow> (heap, ref) state" where
  \<comment> \<open>\<^verbatim>\<open>[...a]\<close>\<close>
  "arr_copy a = do { xs \<leftarrow> readA a; alloc xs }"

definition arr_slice :: "ref \<Rightarrow> int \<Rightarrow> int \<Rightarrow> (heap, ref) state" where
  "arr_slice a i j = do { xs \<leftarrow> readA a; alloc (js_slice xs i j) }"

definition arr_sort :: "(elem \<Rightarrow> elem \<Rightarrow> real) \<Rightarrow> ref \<Rightarrow> (heap, ref) state" where
  \<comment> \<open>\<^verbatim>\<open>a.sort(cmp)\<close> sorts the array where it is and returns it.\<close>
  "arr_sort cmp a = do { xs \<leftarrow> readA a; writeA a (js_sort cmp xs); State_Monad.return a }"

definition arr_push :: "ref \<Rightarrow> elem \<Rightarrow> (heap, unit) state" where
  "arr_push a x = do { xs \<leftarrow> readA a; writeA a (xs @ [x]) }"

fun forEach :: "('a \<Rightarrow> (heap, unit) state) \<Rightarrow> 'a list \<Rightarrow> (heap, unit) state" where
  \<comment> \<open>\<^verbatim>\<open>for (const x of xs) f(x)\<close>\<close>
  "forEach f [] = State_Monad.return ()"
| "forEach f (x # xs) = do { f x; forEach f xs }"

text \<open>The functions of the handler, statement by statement.\<close>

definition findNearbyStoresM :: "ref \<Rightarrow> real \<Rightarrow> real \<Rightarrow> real \<Rightarrow> (heap, ref) state" where
  "findNearbyStoresM stores lat0 lng0 radiusMiles = do {
     let bx = getBoundingBox lat0 lng0 radiusMiles;
     a \<leftarrow> arr_filter (\<lambda>s. inBox bx (theStore s)) stores;
     b \<leftarrow> arr_map (\<lambda>s. ENearby (withDistance (theStore s)
                        (calculateDistance lat0 lng0 (lat (theStore s)) (lng (theStore s))))) a;
     c \<leftarrow> arr_filter (\<lambda>s. distance (theNearby s) \<le> radiusMiles) b;
     arr_sort (\<lambda>a b. distance (theNearby a) - distance (theNearby b)) c
   }"

definition matchingProductsM :: "ref \<Rightarrow> request \<Rightarrow> (heap, ref) state" where
  "matchingProductsM products req = do {
     let q = (case query req of None \<Rightarrow> [] | Some s \<Rightarrow> s);
     let terms = searchTerms q;
     m1 \<leftarrow> (if length terms > 0
            then do {
              a \<leftarrow> arr_map (\<lambda>p. EScored (withScore (theProduct p) (relevance terms (theProduct p)))) products;
              arr_filter (\<lambda>p. relevanceScore (theScored p) > 0) a }
            else arr_map (\<lambda>p. EScored (withScore (theProduct p) 1)) products);
     m2 \<leftarrow> (if truthy (r_category req)
            then arr_filter (\<lambda>p. category (theScored p) = toLowerCase (the (r_category req))) m1
            else State_Monad.return m1);
     (if truthy (r_retailer req)
      then arr_filter (\<lambda>p. toLowerCase (the (r_retailer req)) \<in> set (retailers (theScored p))) m2
      else State_Monad.return m2)
   }"

definition productTurnM ::
  "ref \<Rightarrow> ref \<Rightarrow> string set \<Rightarrow> (string \<rightharpoonup> nearby) \<Rightarrow> bool \<Rightarrow> real option \<Rightarrow> real option
     \<Rightarrow> scored \<Rightarrow> (heap, unit) state" where
  \<comment> \<open>The body of the loop over \<^verbatim>\<open>matchingProducts\<close>.\<close>
  "productTurnM inventoryRef resultsRef nearbyStoreIds storeMap stockOnly lo hi p = do {
     productInv \<leftarrow> arr_filter (\<lambda>iv. productSku (theInventory iv) = sku p \<and>
                        inv_storeId (theInventory iv) \<in> nearbyStoreIds \<and>
                        (\<not> stockOnly \<or> inStock (theInventory iv))) inventoryRef;
     pinv \<leftarrow> readA productInv;
     (if length pinv = 0 then State_Monad.return ()
      else do {
        filteredInv \<leftarrow> arr_filter (\<lambda>iv. priceOk lo hi (theInventory iv)) productInv;
        finv \<leftarrow> readA filteredInv;
        (if length finv = 0 then State_Monad.return ()
         else do {
           c1 \<leftarrow> arr_copy filteredInv;
           sortedByPrice \<leftarrow> arr_sort (\<lambda>a b. price (theInventory a) - price (theInventory b)) c1;
           byPrice \<leftarrow> readA sortedByPrice;
           c2 \<leftarrow> arr_copy filteredInv;
           sortedByDistance \<leftarrow> arr_sort (\<lambda>a b.
               distOr999 (storeMap (inv_storeId (theInventory a))) -
               distOr999 (storeMap (inv_storeId (theInventory b)))) c2;
           byDistance \<leftarrow> readA sortedByDistance;
           let nearestInv = theInventory (hd byDistance);
           firstFive \<leftarrow> arr_slice filteredInv 0 5;
           entriesRef \<leftarrow> arr_map (\<lambda>iv. EEntry
               \<lparr> se_storeId = inv_storeId (theInventory iv),
                 se_name = map_option name (storeMap (inv_storeId (theInventory iv))),
                 se_brand = map_option brand (storeMap (inv_storeId (theInventory iv))),
                 se_distance = map_option distance (storeMap (inv_storeId (theInventory iv))),
                 se_price = price (theInventory iv), se_quantity = quantity (theInventory iv) \<rparr>) firstFive;
           entries \<leftarrow> readA entriesRef;
           arr_push resultsRef (EResult
             \<lparr> res_product = \<lparr> ps_sku = sku p, ps_name = p_name p, ps_category = category p,
                               ps_image = image p,
                               ps_brand = (case p_brand p of None \<Rightarrow> None
                                           | Some b \<Rightarrow> if b = [] then None else Some b),
                               basePrice = p_price p \<rparr>,
               bestPrice = price (theInventory (hd byPrice)),
               storeCount = length finv,
               nearestStore =
                 map_option (\<lambda>n. \<lparr> ns_id = storeId n, ns_name = name n, ns_brand = brand n,
                                    ns_address = address n, ns_distance = distance n,
                                    deliveryEstimate = estimateDeliveryTime (distance n),
                                    ns_price = price nearestInv, ns_quantity = quantity nearestInv \<rparr>)
                   (storeMap (inv_storeId nearestInv)),
               res_allStores = map theEntry entries,
               res_relevanceScore = relevanceScore p \<rparr>)
         })
      })
   }"

definition sortResultsM :: "string \<Rightarrow> string \<Rightarrow> ref \<Rightarrow> (heap, ref) state" where
  "sortResultsM sby ord rs =
     (if sby = ''price'' then
        arr_sort (\<lambda>a b. if ord = ''desc'' then bestPrice (theResult b) - bestPrice (theResult a)
                        else bestPrice (theResult a) - bestPrice (theResult b)) rs
      else if sby = ''distance'' then
        arr_sort (\<lambda>a b. let da = nearestDistOr999 (theResult a); db = nearestDistOr999 (theResult b)
                        in if ord = ''desc'' then db - da else da - db) rs
      else if sby = ''name'' then
        arr_sort (\<lambda>a b. if ord = ''desc''
                        then localeCompare (ps_name (res_product (theResult b))) (ps_name (res_product (theResult a)))
                        else localeCompare (ps_name (res_product (theResult a))) (ps_name (res_product (theResult b)))) rs
      else arr_sort (\<lambda>a b. real_of_int (res_relevanceScore (theResult b) - res_relevanceScore (theResult a))) rs)"

definition searchM :: "ref \<Rightarrow> ref \<Rightarrow> ref \<Rightarrow> request \<Rightarrow> (heap, response) state" where
  "searchM productsRef storesRef inventoryRef req = do {
     matching \<leftarrow> matchingProductsM productsRef req;
     nearbyRef \<leftarrow> findNearbyStoresM storesRef (userLat req) (userLng req) (searchRadius req);
     idsRef \<leftarrow> arr_map (\<lambda>s. EString (storeId (theNearby s))) nearbyRef;
     ids \<leftarrow> readA idsRef;
     let nearbyStoreIds = set (map theString ids);
     nearbyS \<leftarrow> readA nearbyRef;
     let storeMap = storeMapOf (map theNearby nearbyS);
     resultsRef \<leftarrow> arr_new;
     ps \<leftarrow> readA matching;
     forEach (\<lambda>p. productTurnM inventoryRef resultsRef nearbyStoreIds storeMap (stockOnlyOf req)
                      (minPrice req) (maxPrice req) (theScored p)) ps;
     sortResultsM (case sortBy req of None \<Rightarrow> ''relevance'' | Some s \<Rightarrow> s)
                  (case sortOrder req of None \<Rightarrow> ''asc'' | Some s \<Rightarrow> s) resultsRef;
     rs \<leftarrow> readA resultsRef;
     let totalR = int (length rs);
     let pages = \<lceil>real_of_int totalR / real_of_int (limitOf req)\<rceil>;
     let offset = (pageOf req - 1) * limitOf req;
     paginatedRef \<leftarrow> arr_slice resultsRef offset (offset + limitOf req);
     paginatedResults \<leftarrow> readA paginatedRef;
     State_Monad.return
       \<lparr> rsp_query = (case query req of None \<Rightarrow> [] | Some s \<Rightarrow> s),
         rsp_lat = userLat req, rsp_lng = userLng req, rsp_radius = searchRadius req,
         rsp_pagination = \<lparr> pg_page = pageOf req, pg_limit = limitOf req,
                             totalResults = totalR, totalPages = pages \<rparr>,
         results = map theResult paginatedResults \<rparr>
   }"

definition preserves :: "ref \<Rightarrow> (heap, 'a) state \<Rightarrow> ('a \<Rightarrow> bool) \<Rightarrow> bool" where
  \<comment> \<open>Run on a store whose arrays below \<open>n\<close> are allocated, the program leaves these arrays
      as they are, and its value satisfies \<open>Q\<close>.\<close>
  "preserves n m Q \<longleftrightarrow>
     (\<forall>h. n \<le> free h \<longrightarrow>
        (case run_state m h of (r, h') \<Rightarrow>
           n \<le> free h' \<and> (\<forall>a < n. cells h' a = cells h a) \<and> Q r))"

section \<open>The relevance score as the specification words it\<close>

definition specScore :: "string list \<Rightarrow> product \<Rightarrow> int" where
  \<comment> \<open>Three times the number of terms that occur in the (lower-cased) product name, plus
      twice the number of terms that occur in one of the (lower-cased) keyword strings,
      plus the number of terms that occur in the category name.\<close>
  "specScore terms p =
     3 * int (length (filter (\<lambda>t. str_includes (toLowerCase (p_name p)) t) terms)) +
     2 * int (length (filter (\<lambda>t. \<exists>k \<in> set (p_keywords p). str_includes (toLowerCase k) t) terms)) +
     1 * int (length (filter (\<lambda>t. str_includes (category p) t) terms))"

section \<open>Example data\<close>


definition brooklynStore :: store where
  "brooklynStore = \<lparr> storeId = ''HOM_NY01'', retailer = ''homedepot'', brand = ''Home Depot'',
     name = ''Home Depot Brooklyn'', address = ''1 Main St'', lat = 40.6892, lng = - 73.9857 \<rparr>"

definition drill :: product where
  "drill = \<lparr> sku = ''RR-PT-001'', p_name = ''DeWalt Cordless Drill'', p_price = 99,
     category = ''hardware'', p_brand = Some ''DeWalt'', image = None,
     p_keywords = [''drill'', ''cordless''], retailers = [''homedepot'', ''lowes''] \<rparr>"

definition drillRecord :: inventory where
  "drillRecord = \<lparr> inv_id = ''inv-1'', inv_storeId = ''HOM_NY01'', productSku = ''RR-PT-001'',
     productName = ''DeWalt Cordless Drill'', price = 95, quantity = 2, inStock = True \<rparr>"

definition emptyRequest :: request where
  "emptyRequest = \<lparr> query = None, r_lat = Absent, r_lng = Absent, radius = None,
     r_category = None, minPrice = None, maxPrice = None, sortBy = None, sortOrder = None,
     page = None, limit = None, r_retailer = None, inStockOnly = None \<rparr>"

definition brooklynDb :: db where
  "brooklynDb = \<lparr> PRODUCTS = [drill], allStores = [brooklynStore], inventoryOf = [drillRecord] \<rparr>"


definition brooklynResult :: result where
  "brooklynResult =
     \<lparr> res_product = \<lparr> ps_sku = ''RR-PT-001'', ps_name = ''DeWalt Cordless Drill'',
                         ps_category = ''hardware'', ps_image = None, ps_brand = Some ''DeWalt'',
                         basePrice = 99 \<rparr>,
        bestPrice = 95, storeCount = 1,
        nearestStore = Some \<lparr> ns_id = ''HOM_NY01'', ns_name = ''Home Depot Brooklyn'',
                               ns_brand = ''Home Depot'', ns_address = ''1 Main St'',
                               ns_distance = 0, deliveryEstimate = estimateDeliveryTime 0,
                               ns_price = 95, ns_quantity = 2 \<rparr>,
        res_allStores = [\<lparr> se_storeId = ''HOM_NY01'', se_name = Some ''Home Depot Brooklyn'',
                            se_brand = Some ''Home Depot'', se_distance = Some 0,
                            se_price = 95, se_quantity = 2 \<rparr>],
        res_relevanceScore = 1 \<rparr>"

definition priceRequest :: request where
  "priceRequest = emptyRequest \<lparr> minPrice := Some 90, maxPrice := Some 100 \<rparr>"

definition originRequest :: request where
  "originRequest = emptyRequest \<lparr> query := Some ''drill'', r_lat := Number 0, r_lng := Number 0,
     radius := Some 10 \<rparr>"

definition northStore :: store where
  "northStore = \<lparr> storeId = ''LOW_NY01'', retailer = ''lowes'', brand = ''Lowes'',
     name = ''Lowes Williamsburg'', address = ''2 Main St'', lat = 40.7392, lng = - 73.9857 \<rparr>"

definition hammer :: product where
  "hammer = \<lparr> sku = ''RR-HT-001'', p_name = ''Stanley Hammer'', p_price = 15,
     category = ''hardware'', p_brand = Some ''Stanley'', image = None,
     p_keywords = [''hammer''], retailers = [''lowes''] \<rparr>"

definition hammerRecord :: inventory where
  "hammerRecord = \<lparr> inv_id = ''inv-3'', inv_storeId = ''LOW_NY01'', productSku = ''RR-HT-001'',
     productName = ''Stanley Hammer'', price = 14, quantity = 5, inStock = True \<rparr>"

definition distanceDb :: db where
  "distanceDb = \<lparr> PRODUCTS = [drill, hammer], allStores = [brooklynStore, northStore],
     inventoryOf = [drillRecord, hammerRecord] \<rparr>"

definition distanceRequest :: request where
  "distanceRequest = emptyRequest \<lparr> r_lat := Number 40.6892, r_lng := Number (- 73.9857),
     sortBy := Some ''distance'' \<rparr>"

definition northDistance :: real where
  "northDistance = calculateDistance 40.6892 (- 73.9857) 40.7392 (- 73.9857)"

definition brooklynHeap :: heap where
  "brooklynHeap = \<lparr> cells = (\<lambda>_. [])(0 := [EProduct drill], 1 := [EStore brooklynStore],
                                        2 := [EInventory drillRecord]),
                     free = 3 \<rparr>"

section \<open>Sorting, slicing and strings: basic facts\<close>

lemma insort_cmp_key: "insort_cmp (\<lambda>a b. k a - k b) x xs = insort_key k x xs"
  by (induction xs) simp_all

lemma js_sort_key: "js_sort (\<lambda>a b. k a - k b) xs = sort_key k xs"
  by (induction xs) (simp_all add: js_sort_def sort_key_def insort_cmp_key)

lemma set_insort_cmp [simp]: "set (insort_cmp cmp x xs) = insert x (set xs)"
  by (induction xs) auto

lemma set_js_sort [simp]: "set (js_sort cmp xs) = set xs"
  by (induction xs) (simp_all add: js_sort_def)

lemma mset_insort_cmp [simp]: "mset (insort_cmp cmp x xs) = add_mset x (mset xs)"
  by (induction xs) auto

lemma mset_js_sort [simp]: "mset (js_sort cmp xs) = mset xs"
  by (induction xs) (simp_all add: js_sort_def)

lemma length_js_sort [simp]: "length (js_sort cmp xs) = length xs"
  by (metis mset_js_sort size_mset)

lemma take_length_eq_iff: "take (length t) xs = t \<longleftrightarrow> (\<exists>r. xs = t @ r)"
proof
  assume "take (length t) xs = t"
  then have "xs = t @ drop (length t) xs" by (metis append_take_drop_id)
  then show "\<exists>r. xs = t @ r" ..
next
  assume "\<exists>r. xs = t @ r"
  then show "take (length t) xs = t" by auto
qed

lemma str_includes_iff: "str_includes s t \<longleftrightarrow> (\<exists>p r. s = p @ t @ r)"
proof (induction s)
  case Nil
  show ?case by auto
next
  case (Cons c s)
  have "(\<exists>p r. c # s = p @ t @ r) \<longleftrightarrow> (\<exists>r. c # s = t @ r) \<or> (\<exists>p r. s = p @ t @ r)"
    by (auto simp: Cons_eq_append_conv)
  then show ?case using Cons by (simp add: take_length_eq_iff del: take_Suc_Cons)
qed

text \<open>A term without the separator occurs in \<open>a sep b\<close> only inside \<open>a\<close> or inside \<open>b\<close>.\<close>

lemma str_includes_sep:
  assumes "t \<noteq> []" "sep \<notin> set t"
  shows "str_includes (a @ sep # b) t \<longleftrightarrow> str_includes a t \<or> str_includes b t"
proof
  assume "str_includes (a @ sep # b) t"
  then obtain p r where eq: "a @ sep # b = p @ t @ r" by (auto simp: str_includes_iff)
  then consider us where "a = p @ us" "us @ sep # b = t @ r"
    | us where "a @ us = p" "sep # b = us @ t @ r"
    by (auto simp: append_eq_append_conv2)
  then show "str_includes a t \<or> str_includes b t"
  proof cases
    case 1
    from 1(2) consider vs where "us = t @ vs" | vs where "us @ vs = t" "sep # b = vs @ r"
      by (auto simp: append_eq_append_conv2)
    then show ?thesis
    proof cases
      case 1
      with \<open>a = p @ us\<close> show ?thesis by (auto simp: str_includes_iff)
    next
      case 2
      show ?thesis
      proof (cases vs)
        case Nil
        with 2 \<open>a = p @ us\<close> have "a = p @ t @ []" by simp
        then show ?thesis unfolding str_includes_iff by blast
      next
        case (Cons v vs')
        with 2 have "sep \<in> set t" by auto
        with assms show ?thesis by simp
      qed
    qed
  next
    case 2
    show ?thesis
    proof (cases us)
      case Nil
      with 2 assms have "sep \<in> set t" by (cases t) auto
      with assms show ?thesis by simp
    next
      case (Cons u us')
      with 2 have "b = us' @ t @ r" by simp
      then show ?thesis unfolding str_includes_iff by blast
    qed
  qed
next
  assume "str_includes a t \<or> str_includes b t"
  then show "str_includes (a @ sep # b) t"
  proof
    assume "str_includes a t"
    then obtain p r where "a = p @ t @ r" by (auto simp: str_includes_iff)
    then have "a @ sep # b = p @ t @ (r @ sep # b)" by simp
    then show ?thesis unfolding str_includes_iff by blast
  next
    assume "str_includes b t"
    then obtain p r where "b = p @ t @ r" by (auto simp: str_includes_iff)
    then have "a @ sep # b = (a @ sep # p) @ t @ r" by simp
    then show ?thesis unfolding str_includes_iff by blast
  qed
qed

lemma str_includes_join:
  assumes "t \<noteq> []" "CHR '' '' \<notin> set t"
  shows "str_includes (join '' '' ks) t \<longleftrightarrow> (\<exists>k \<in> set ks. str_includes k t)"
proof (induction ks)
  case Nil
  show ?case using assms by simp
next
  case (Cons x xs)
  note IH = Cons.IH
  show ?case
  proof (cases xs)
    case Nil
    then show ?thesis by simp
  next
    case (Cons y ys)
    have "str_includes (x @ CHR '' '' # join '' '' (y # ys)) t
        \<longleftrightarrow> str_includes x t \<or> str_includes (join '' '' (y # ys)) t"
      by (rule str_includes_sep [OF assms])
    with IH Cons show ?thesis by simp
  qed
qed

lemma toLowerChar_space [simp]: "toLowerChar CHR '' '' = CHR '' ''"
  by (simp add: toLowerChar_def)

lemma toLowerCase_join:
  "toLowerCase (join '' '' ks) = join '' '' (map toLowerCase ks)"
proof (induction ks)
  case Nil
  show ?case by (simp add: toLowerCase_def)
next
  case (Cons x xs)
  then show ?case by (cases xs) (simp_all add: toLowerCase_def)
qed

lemma isSpace_toLowerChar [simp]: "isSpace (toLowerChar c) = isSpace c"
proof -
  define n where "n = (of_char c :: nat)"
  show ?thesis
  proof (cases "(65 \<le> n \<and> n \<le> 90) \<or> (192 \<le> n \<and> n \<le> 222 \<and> n \<noteq> 215)")
    case True
    then have "toLowerChar c = char_of (n + 32)" by (simp add: toLowerChar_def n_def Let_def)
    moreover have "n + 32 < 256" using True by auto
    then have "(of_char (char_of (n + 32)) :: nat) = n + 32" by simp
    ultimately show ?thesis using True by (auto simp: isSpace_def Let_def n_def [symmetric])
  next
    case False
    then have "toLowerChar c = c"
      unfolding toLowerChar_def n_def Let_def by (simp only: if_False)
    then show ?thesis by simp
  qed
qed

lemma split_ws_fields:
  "\<forall>c \<in> set cur. \<not> isSpace c \<Longrightarrow> t \<in> set (split_ws cur s) \<Longrightarrow> \<forall>c \<in> set t. \<not> isSpace c"
proof (induction cur s rule: split_ws.induct)
  case (1 cur)
  then show ?case by simp
next
  case (2 cur c cs)
  show ?case
  proof (cases "isSpace c")
    case True
    with "2.prems" have "t = cur \<or> t \<in> set (split_ws [] (dropWhile isSpace cs))" by simp
    then show ?thesis
    proof
      assume "t = cur"
      with "2.prems" show ?thesis by simp
    next
      assume "t \<in> set (split_ws [] (dropWhile isSpace cs))"
      with "2.IH"(1) [OF True] show ?thesis by simp
    qed
  next
    case False
    with "2.prems" have "t \<in> set (split_ws (cur @ [c]) cs)" by simp
    moreover have "\<forall>c \<in> set (cur @ [c]). \<not> isSpace c" using False "2.prems" by simp
    ultimately show ?thesis using "2.IH"(2) [OF False] by blast
  qed
qed

lemma searchTerms_fields:
  assumes "t \<in> set (searchTerms q)"
  shows "t \<noteq> []" and "CHR '' '' \<notin> set t"
proof -
  from assms show "t \<noteq> []" by (simp add: searchTerms_def)
  from assms have "t \<in> set (split_ws [] (toLowerCase q))" by (simp add: searchTerms_def)
  then have "\<forall>c \<in> set t. \<not> isSpace c" by (rule split_ws_fields [rotated]) simp
  moreover have "isSpace CHR '' ''" by (simp add: isSpace_def)
  ultimately show "CHR '' '' \<notin> set t" by blast
qed

lemma split_ws_nonempty_field:
  "cur \<noteq> [] \<or> (\<exists>c \<in> set s. \<not> isSpace c) \<Longrightarrow> \<exists>t \<in> set (split_ws cur s). t \<noteq> []"
proof (induction cur s rule: split_ws.induct)
  case (1 cur)
  then show ?case by simp
next
  case (2 cur c cs)
  show ?case
  proof (cases "isSpace c")
    case True
    show ?thesis
    proof (cases "cur = []")
      case False
      with True show ?thesis by simp
    next
      case cur: True
      with "2.prems" True obtain c' where c': "c' \<in> set cs" "\<not> isSpace c'" by auto
      then have "c' \<in> set (dropWhile isSpace cs)"
        by (metis (mono_tags) set_takeWhileD takeWhile_dropWhile_id set_append Un_iff)
      with c' "2.IH"(1) [OF True] True show ?thesis by auto
    qed
  next
    case False
    with "2.IH"(2) [OF False] show ?thesis by simp
  qed
qed

lemma trim_nonempty: "trim s \<noteq> [] \<Longrightarrow> \<exists>c \<in> set (trim s). \<not> isSpace c"
proof -
  assume ne: "trim s \<noteq> []"
  define u where "u = dropWhile isSpace (rev (dropWhile isSpace s))"
  from ne have "u \<noteq> []" by (simp add: trim_def u_def)
  then have "\<not> isSpace (hd u)" unfolding u_def by (rule hd_dropWhile)
  moreover have "hd u \<in> set (trim s)" using \<open>u \<noteq> []\<close> by (simp add: trim_def u_def [symmetric])
  ultimately show ?thesis by blast
qed

lemma searchTerms_nonempty:
  assumes "\<exists>c \<in> set q. \<not> isSpace c"
  shows "searchTerms q \<noteq> []"
proof -
  from assms have "\<exists>c \<in> set (toLowerCase q). \<not> isSpace c"
    by (auto simp: toLowerCase_def)
  then have "\<exists>t \<in> set (split_ws [] (toLowerCase q)). t \<noteq> []"
    by (intro split_ws_nonempty_field) simp
  then show ?thesis by (auto simp: searchTerms_def filter_empty_conv)
qed

section \<open>Records built by spreading\<close>

lemma withDistance_sel [simp]:
  "distance (withDistance s d) = d" "lat (withDistance s d) = lat s" "lng (withDistance s d) = lng s"
  "storeId (withDistance s d) = storeId s" "name (withDistance s d) = name s"
  "brand (withDistance s d) = brand s" "address (withDistance s d) = address s"
  "retailer (withDistance s d) = retailer s"
  "store.truncate (withDistance s d) = s"
  by (simp_all add: withDistance_def store.defs nearby.defs)

lemma withScore_sel [simp]:
  "relevanceScore (withScore p n) = n" "sku (withScore p n) = sku p"
  "p_name (withScore p n) = p_name p" "p_price (withScore p n) = p_price p"
  "category (withScore p n) = category p" "p_brand (withScore p n) = p_brand p"
  "image (withScore p n) = image p" "p_keywords (withScore p n) = p_keywords p"
  "retailers (withScore p n) = retailers p" "product.truncate (withScore p n) = p"
  by (simp_all add: withScore_def product.defs scored.defs)

section \<open>Distances\<close>

lemma atan2_sin_cos:
  assumes "0 < t" "t < pi / 2"
  shows "atan2 (sqrt ((sin t)\<^sup>2)) (sqrt (1 - (sin t)\<^sup>2)) = t"
proof -
  have s: "0 < sin t" using assms by (intro sin_gt_zero) auto
  have c: "0 < cos t" using assms by (intro cos_gt_zero) auto
  have "1 - (sin t)\<^sup>2 = (cos t)\<^sup>2"
    using sin_cos_squared_add [of t] by (simp add: algebra_simps)
  then have "sqrt (1 - (sin t)\<^sup>2) = cos t" using c by simp
  moreover have "sqrt ((sin t)\<^sup>2) = sin t" using s by simp
  moreover have "arctan (sin t / cos t) = t"
    using arctan_tan [of t] assms by (simp add: tan_def)
  ultimately show ?thesis
    using c by (simp add: atan2_def)
qed



lemma haversine_self [simp]: "haversine a b a b = 0"
  by (simp add: haversine_def atan2_def toRadians_def)

lemma toFixed_0 [simp]: "toFixed d 0 = 0"
  by (simp add: toFixed_def)

lemma calculateDistance_self [simp]: "calculateDistance a b a b = 0"
  by (simp add: calculateDistance_def)

lemma cos_toRadians_pos:
  assumes "- 90 < a" "a < 90"
  shows "0 < cos (toRadians a)"
proof (rule cos_gt_zero_pi)
  have "(- 90) * (pi / 180) < a * (pi / 180)"
    using assms(1) by (intro mult_strict_right_mono) simp_all
  then show "- (pi / 2) < toRadians a" by (simp add: toRadians_def)
  have "a * (pi / 180) < 90 * (pi / 180)"
    using assms(2) by (intro mult_strict_right_mono) simp_all
  then show "toRadians a < pi / 2" by (simp add: toRadians_def)
qed

lemma inBox_self:
  assumes "- 90 < lat s" "lat s < 90" "0 \<le> R"
  shows "inBox (getBoundingBox (lat s) (lng s) R) s"
  using cos_toRadians_pos [OF assms(1,2)] assms(3)
  by (simp add: inBox_def getBoundingBox_def Let_def)

lemma findNearbyStores_at_store:
  assumes "- 90 < lat s" "lat s < 90" "0 \<le> R"
  shows "findNearbyStores [s] (lat s) (lng s) R = [withDistance s 0]"
  using inBox_self [OF assms] assms(3)
  by (simp add: findNearbyStores_def js_sort_def)

section \<open>C1: what \<^verbatim>\<open>findNearbyStores\<close> returns\<close>




section \<open>C2: the relevance score\<close>

lemma fold_score:
  "fold (\<lambda>term score.
           let s1 = (if A term then score + 3 else score);
               s2 = (if B term then s1 + 2 else s1)
           in (if C term then s2 + 1 else s2)) ts (acc :: int)
   = acc + 3 * int (length (filter A ts)) + 2 * int (length (filter B ts))
         + 1 * int (length (filter C ts))"
  by (induction ts arbitrary: acc) (simp_all add: Let_def)

lemma relevance_specScore:
  assumes "\<forall>t \<in> set ts. t \<noteq> [] \<and> CHR '' '' \<notin> set t"
  shows "relevance ts p = specScore ts p"
proof -
  have "filter (\<lambda>t. str_includes (toLowerCase (join '' '' (p_keywords p))) t) ts
      = filter (\<lambda>t. \<exists>k \<in> set (p_keywords p). str_includes (toLowerCase k) t) ts"
    using assms by (intro filter_cong refl) (simp add: toLowerCase_join str_includes_join)
  moreover have "relevance ts p =
      fold (\<lambda>term score.
           let s1 = (if str_includes (toLowerCase (p_name p)) term then score + 3 else score);
               s2 = (if str_includes (toLowerCase (join '' '' (p_keywords p))) term then s1 + 2 else s1)
           in (if str_includes (category p) term then s2 + 1 else s2)) ts 0"
    by (simp only: relevance_def Let_def)
  ultimately show ?thesis
    by (simp only: fold_score specScore_def)
qed

lemma specScore_nonneg: "0 \<le> specScore ts p"
  by (simp add: specScore_def)

lemma textMatch_specScore:
  assumes "searchTerms q \<noteq> []"
  shows "textMatch products (searchTerms q) =
           map (\<lambda>p. withScore p (specScore (searchTerms q) p))
             (filter (\<lambda>p. specScore (searchTerms q) p \<noteq> 0) products)"
proof -
  have rel: "relevance (searchTerms q) p = specScore (searchTerms q) p" for p
    by (rule relevance_specScore) (auto dest: searchTerms_fields)
  have pos: "0 < specScore (searchTerms q) p \<longleftrightarrow> specScore (searchTerms q) p \<noteq> 0" for p
    using specScore_nonneg [of "searchTerms q" p] by linarith
  show ?thesis using assms
    by (simp add: textMatch_def rel filter_map comp_def pos)
qed

lemma sanitized_query_terms:
  assumes "query (sanitize body) = Some q" "q \<noteq> []"
  shows "searchTerms q \<noteq> []"
proof -
  from assms obtain s where "q = trim s"
    by (auto simp: sanitize_def split: option.splits if_splits)
  with assms(2) have "\<exists>c \<in> set q. \<not> isSpace c" by (simp add: trim_nonempty)
  then show ?thesis by (rule searchTerms_nonempty)
qed

lemma searchTerms_cordless_drill: "searchTerms ''cordless drill'' = [''cordless'', ''drill'']"
  by code_simp

lemma relevance_cordless_drill: "relevance [''cordless'', ''drill''] drill = 10"
  by code_simp

lemma trim_Drill: "trim ''  Drill '' = ''Drill''"
  by code_simp

text \<open>
  C2: when the query that reaches the handler (the body's query, trimmed by the
  route's sanitizer) is not empty, step 1 keeps exactly the catalog products whose
  score is not 0, in catalog order, and gives each the score the specification words:
  3 for every term (of the lower-cased query, split at white space) that occurs in the
  lower-cased product name, 2 for every term that occurs in a lower-cased keyword
  string, 1 for every term that occurs in the category name. The product "DeWalt
  Cordless Drill" with keywords "drill" and "cordless" and category "hardware" scores
  10 for the query "cordless drill".
\<close>

theorem relevance_score:
  assumes "query (sanitize body) = Some q" and "q \<noteq> []"
  shows "textMatch products (searchTerms q) =
           map (\<lambda>p. withScore p (specScore (searchTerms q) p))
             (filter (\<lambda>p. specScore (searchTerms q) p \<noteq> 0) products)
       \<and> textMatch [drill] (searchTerms ''cordless drill'') = [withScore drill 10]"
proof
  show "textMatch products (searchTerms q) =
           map (\<lambda>p. withScore p (specScore (searchTerms q) p))
             (filter (\<lambda>p. specScore (searchTerms q) p \<noteq> 0) products)"
    by (rule textMatch_specScore) (rule sanitized_query_terms [OF assms])
  show "textMatch [drill] (searchTerms ''cordless drill'') = [withScore drill 10]"
    by (simp add: searchTerms_cordless_drill textMatch_def relevance_cordless_drill)
qed

theorem relevance_score_witness:
  "query (sanitize (emptyRequest \<lparr> query := Some ''  Drill '' \<rparr>)) = Some ''Drill'' \<and> ''Drill'' \<noteq> []
   \<and> textMatch [drill] (searchTerms ''Drill'') =
        map (\<lambda>p. withScore p (specScore (searchTerms ''Drill'') p))
          (filter (\<lambda>p. specScore (searchTerms ''Drill'') p \<noteq> 0) [drill])"
proof -
  have q: "query (sanitize (emptyRequest \<lparr> query := Some ''  Drill '' \<rparr>)) = Some ''Drill''"
    by (simp add: sanitize_def trim_Drill)
  have ne: "''Drill'' \<noteq> []" by simp
  from relevance_score [OF q ne, of "[drill]"] q show ?thesis by simp
qed

section \<open>C7: pagination\<close>





lemma sortedResults_page [simp]: "sortedResults d (req\<lparr>page := pg\<rparr>) = sortedResults d req"
  by (simp add: sortedResults_def searchResults_def nearbyStores_def matchingProducts_def
        userLat_def userLng_def searchRadius_def stockOnlyOf_def Let_def)

lemma limitOf_page [simp]: "limitOf (req\<lparr>page := pg\<rparr>) = limitOf req"
  by (simp add: limitOf_def)

lemma results_search:
  "results (search d req) =
     js_slice (sortedResults d req) ((pageOf req - 1) * limitOf req)
       ((pageOf req - 1) * limitOf req + limitOf req)"
  by (simp add: search_def paginate_def Let_def)

lemma pagination_search:
  "rsp_pagination (search d req) =
     \<lparr> pg_page = pageOf req, pg_limit = limitOf req,
       totalResults = int (length (sortedResults d req)),
       totalPages = \<lceil>real_of_int (int (length (sortedResults d req))) / real_of_int (limitOf req)\<rceil> \<rparr>"
  by (simp add: search_def paginate_def Let_def)



section \<open>C8: order placement keeps quantities non-negative\<close>





section \<open>Search results: where they come from\<close>

lemma set_js_slice: "set (js_slice xs a b) \<subseteq> set xs"
  unfolding js_slice_def Let_def
  by (meson set_take_subset set_drop_subset subset_trans)

lemma set_sortResults [simp]: "set (sortResults sby ord rs) = set rs"
  by (simp add: sortResults_def)

lemma result_origin:
  assumes "r \<in> set (results (search d req))"
  shows "\<exists>p \<in> set (matchingProducts (PRODUCTS d) req).
           productResult (inventoryOf d) (nearbyStores d req) (stockOnlyOf req)
             (minPrice req) (maxPrice req) p = Some r"
proof -
  from assms have "r \<in> set (sortedResults d req)"
    using set_js_slice by (fastforce simp: results_search)
  then have "r \<in> set (searchResults d req)" by (simp add: sortedResults_def)
  then show ?thesis
    by (auto simp: searchResults_def List.map_filter_def)
qed

section \<open>C6: the price filter and the best price\<close>

lemma sorted_hd_Min:
  assumes "sorted (map f ys)" "ys \<noteq> []"
  shows "f (hd ys) = Min (f ` set ys)"
proof (cases ys)
  case Nil
  with assms show ?thesis by simp
next
  case (Cons y ys')
  with assms have "\<forall>z \<in> set ys'. f y \<le> f z" by simp
  then have "Min (f ` set (y # ys')) = f y"
    by (intro Min_eqI) auto
  with Cons show ?thesis by simp
qed

lemma bestPriceOf_Min: "xs \<noteq> [] \<Longrightarrow> bestPriceOf xs = Min (price ` set xs)"
proof -
  assume ne: "xs \<noteq> []"
  have "sorted (map price (sort_key price xs))" by simp
  moreover have "sort_key price xs \<noteq> []" using ne by (metis length_0_conv length_sort)
  ultimately have "price (hd (sort_key price xs)) = Min (price ` set (sort_key price xs))"
    by (rule sorted_hd_Min)
  then show ?thesis by (simp add: bestPriceOf_def js_sort_key)
qed

lemma productResult_Some:
  assumes "productResult invs nearbyS stockOnly lo hi p = Some r"
  shows "filteredInvOf invs nearbyS stockOnly lo hi p \<noteq> []"
    and "r = shapeResult (storeMapOf nearbyS) p (filteredInvOf invs nearbyS stockOnly lo hi p)"
  using assms by (auto simp: productResult_def split: if_splits)

lemma bestPrice_shapeResult [simp]: "bestPrice (shapeResult m p xs) = bestPriceOf xs"
  by (simp add: shapeResult_def Let_def)

lemma storeCount_shapeResult [simp]: "storeCount (shapeResult m p xs) = length xs"
  by (simp add: shapeResult_def Let_def)

lemma sku_shapeResult [simp]: "ps_sku (res_product (shapeResult m p xs)) = sku p"
  by (simp add: shapeResult_def Let_def)

lemma priceOk_bounds:
  "priceOk lo hi iv \<longleftrightarrow> (\<forall>l. lo = Some l \<longrightarrow> l \<le> price iv) \<and> (\<forall>h. hi = Some h \<longrightarrow> price iv \<le> h)"
  by (cases lo; cases hi) (auto simp: priceOk_def)

lemma productResult_iff:
  "productResult invs nearbyS stockOnly lo hi p \<noteq> None \<longleftrightarrow>
     (\<exists>iv \<in> set (productInventory invs (set (map storeId nearbyS)) stockOnly p). priceOk lo hi iv)"
  by (auto simp: productResult_def filteredInvOf_def filter_empty_conv)

text \<open>
  C6: every result the search returns has a \<open>bestPrice\<close> of at least \<open>minPrice\<close> and at
  most \<open>maxPrice\<close>, for each of the two bounds the request carries. A matching product
  gets a result exactly when one of its records at a nearby store (in stock, when the
  request asks so) passes the price filter, and the \<open>bestPrice\<close> of that result is the
  least price among the records that pass.
\<close>

theorem bestPrice_within_bounds:
  "(\<forall>r \<in> set (results (search d req)).
      (\<forall>lo. minPrice req = Some lo \<longrightarrow> lo \<le> bestPrice r) \<and>
      (\<forall>hi. maxPrice req = Some hi \<longrightarrow> bestPrice r \<le> hi))
   \<and> (\<forall>p \<in> set (matchingProducts (PRODUCTS d) req).
        (productResult (inventoryOf d) (nearbyStores d req) (stockOnlyOf req)
           (minPrice req) (maxPrice req) p \<noteq> None)
        = (\<exists>iv \<in> set (nearbyRecords d req p). priceOk (minPrice req) (maxPrice req) iv))
   \<and> (\<forall>p r. productResult (inventoryOf d) (nearbyStores d req) (stockOnlyOf req)
               (minPrice req) (maxPrice req) p = Some r
         \<longrightarrow> surviving d req p = filter (priceOk (minPrice req) (maxPrice req)) (nearbyRecords d req p)
           \<and> bestPrice r = Min (price ` set (surviving d req p)))"
proof (intro conjI ballI allI impI)
  fix p r
  assume pr: "productResult (inventoryOf d) (nearbyStores d req) (stockOnlyOf req)
               (minPrice req) (maxPrice req) p = Some r"
  show "surviving d req p = filter (priceOk (minPrice req) (maxPrice req)) (nearbyRecords d req p)"
    by (simp add: surviving_def filteredInvOf_def nearbyRecords_def)
  from productResult_Some [OF pr]
  show "bestPrice r = Min (price ` set (surviving d req p))"
    by (simp add: surviving_def bestPriceOf_Min)
next
  fix p
  show "(productResult (inventoryOf d) (nearbyStores d req) (stockOnlyOf req)
           (minPrice req) (maxPrice req) p \<noteq> None)
        = (\<exists>iv \<in> set (nearbyRecords d req p). priceOk (minPrice req) (maxPrice req) iv)"
    unfolding nearbyRecords_def by (rule productResult_iff)
next
  fix r
  assume "r \<in> set (results (search d req))"
  then obtain p where pr: "productResult (inventoryOf d) (nearbyStores d req) (stockOnlyOf req)
             (minPrice req) (maxPrice req) p = Some r"
    using result_origin by blast
  define xs where "xs = filteredInvOf (inventoryOf d) (nearbyStores d req) (stockOnlyOf req)
             (minPrice req) (maxPrice req) p"
  from productResult_Some [OF pr] have ne: "xs \<noteq> []" and r: "bestPrice r = bestPriceOf xs"
    by (simp_all add: xs_def)
  have "Min (price ` set xs) \<in> price ` set xs" using ne by (intro Min_in) auto
  then obtain iv where "iv \<in> set xs" "Min (price ` set xs) = price iv" by auto
  then have iv: "iv \<in> set xs" "bestPrice r = price iv"
    using r ne by (simp_all add: bestPriceOf_Min)
  then have ok: "priceOk (minPrice req) (maxPrice req) iv"
    by (simp add: xs_def filteredInvOf_def)
  { fix lo assume "minPrice req = Some lo"
    with ok iv show "lo \<le> bestPrice r" by (simp add: priceOk_bounds) }
  { fix hi assume "maxPrice req = Some hi"
    with ok iv show "bestPrice r \<le> hi" by (simp add: priceOk_bounds) }
qed


section \<open>Evaluating the search on example data\<close>

lemma js_sort_single [simp]: "js_sort cmp [x] = [x]"
  by (simp add: js_sort_def)

lemma js_slice_single [simp]: "0 < n \<Longrightarrow> js_slice [x] 0 n = [x]"
  by (simp add: js_slice_def)

lemma sortResults_single [simp]: "sortResults sby ord [r] = [r]"
  by (simp add: sortResults_def)

lemma results_single:
  assumes "searchResults d req = [r]" "pageOf req = 1" "0 < limitOf req"
  shows "results (search d req) = [r]"
  using assms by (simp add: results_search sortedResults_def)

lemmas request_defs = userLat_def userLng_def searchRadius_def stockOnlyOf_def pageOf_def
  limitOf_def defaultLat_def defaultLng_def defaultRadius_def maxRadius_def defaultLimit_def

lemmas result_defs = List.map_filter_def productResult_def filteredInvOf_def
  productInventory_def priceOk_def shapeResult_def storeMapOf_def bestPriceOf_def
  nearestInvOf_def distOr999_def Let_def

lemma nearbyStores_at_brooklyn:
  assumes "allStores d = [brooklynStore]"
    and "userLat req = 40.6892" "userLng req = - 73.9857" "0 \<le> searchRadius req"
  shows "nearbyStores d req = [withDistance brooklynStore 0]"
proof -
  have "findNearbyStores [brooklynStore] (lat brooklynStore) (lng brooklynStore) (searchRadius req)
      = [withDistance brooklynStore 0]"
    by (rule findNearbyStores_at_store) (simp_all add: brooklynStore_def assms)
  then show ?thesis by (simp add: nearbyStores_def assms brooklynStore_def)
qed

lemma searchTerms_empty: "searchTerms [] = []"
  by code_simp

lemma searchTerms_drill: "searchTerms ''drill'' = [''drill'']"
  by code_simp

lemma relevance_drill: "relevance [''drill''] drill = 5"
  by code_simp

lemma trim_drill: "trim ''drill'' = ''drill''"
  by code_simp

lemma searchResults_price:
  "searchResults brooklynDb priceRequest = [brooklynResult]"
proof -
  have n: "nearbyStores brooklynDb priceRequest = [withDistance brooklynStore 0]"
    by (rule nearbyStores_at_brooklyn)
       (simp_all add: request_defs priceRequest_def emptyRequest_def brooklynDb_def)
  have m: "matchingProducts (PRODUCTS brooklynDb) priceRequest = [withScore drill 1]"
    by (simp add: matchingProducts_def priceRequest_def emptyRequest_def brooklynDb_def
          searchTerms_empty textMatch_def truthy_def)
  show ?thesis
    unfolding searchResults_def n m
    by (simp add: result_defs request_defs brooklynDb_def drillRecord_def drill_def
          brooklynStore_def priceRequest_def emptyRequest_def brooklynResult_def)
qed

lemma results_price: "results (search brooklynDb priceRequest) = [brooklynResult]"
  by (rule results_single [OF searchResults_price])
     (simp_all add: request_defs priceRequest_def emptyRequest_def)

theorem bestPrice_within_bounds_witness:
  "results (search brooklynDb priceRequest) = [brooklynResult]
   \<and> minPrice priceRequest = Some 90 \<and> 90 \<le> bestPrice brooklynResult
   \<and> maxPrice priceRequest = Some 100 \<and> bestPrice brooklynResult \<le> 100"
proof -
  have r: "brooklynResult \<in> set (results (search brooklynDb priceRequest))"
    by (simp add: results_price)
  have lo: "minPrice priceRequest = Some 90" and hi: "maxPrice priceRequest = Some 100"
    by (simp_all add: priceRequest_def)
  from bestPrice_within_bounds [of brooklynDb priceRequest] r lo hi
  have "90 \<le> bestPrice brooklynResult" "bestPrice brooklynResult \<le> 100" by blast+
  with results_price lo hi show ?thesis by blast
qed

section \<open>C5: \<open>storeCount\<close>\<close>











section \<open>C4: sorting by distance\<close>

lemma haversine_north: "haversine 40.6892 (- 73.9857) 40.7392 (- 73.9857) = 3959 * pi / 3600"
proof -
  define t :: real where "t = pi / 7200"
  have t: "0 < t" "t < pi / 2" by (simp_all add: t_def)
  have "toRadians (40.7392 - 40.6892) / 2 = t"
    by (simp add: toRadians_def t_def)
  then show ?thesis
    using atan2_sin_cos [OF t]
    by (simp add: haversine_def Let_def t_def) (simp add: toRadians_def)
qed

lemma toFixed1_bounds:
  assumes "1 \<le> x" "x \<le> 9"
  shows "0 < toFixed 1 x" and "toFixed 1 x \<le> 10"
proof -
  have "1 \<le> \<lfloor>x * 10 + 1 / 2\<rfloor>" using assms by linarith
  then show "0 < toFixed 1 x" using assms by (simp add: toFixed_def round_def)
  have "\<lfloor>x * 10 + 1 / 2\<rfloor> \<le> 100" using assms by linarith
  then show "toFixed 1 x \<le> 10" using assms by (simp add: toFixed_def round_def)
qed

lemma northDistance_bounds: "0 < northDistance" "northDistance \<le> 10"
proof -
  have "1 \<le> 3959 * pi / 3600" using pi_ge_two by simp
  moreover have "3959 * pi / 3600 \<le> 9" using pi_less_4 by simp
  ultimately show "0 < northDistance" "northDistance \<le> 10"
    unfolding northDistance_def calculateDistance_def haversine_north
    by (rule toFixed1_bounds)+
qed

lemma findNearbyStores_two:
  assumes "inBox (getBoundingBox la lo R) s1" "inBox (getBoundingBox la lo R) s2"
    and "calculateDistance la lo (lat s1) (lng s1) = d1"
    and "calculateDistance la lo (lat s2) (lng s2) = d2"
    and "d1 \<le> d2" "d2 \<le> R"
  shows "findNearbyStores [s1, s2] la lo R = [withDistance s1 d1, withDistance s2 d2]"
  using assms by (simp add: findNearbyStores_def js_sort_def)

lemma nearbyStores_distance:
  "nearbyStores distanceDb distanceRequest =
     [withDistance brooklynStore 0, withDistance northStore northDistance]"
proof -
  have c: "0 < cos (toRadians 40.6892)" by (rule cos_toRadians_pos) simp_all
  have "findNearbyStores [brooklynStore, northStore] 40.6892 (- 73.9857) 10 =
      [withDistance brooklynStore 0, withDistance northStore northDistance]"
  proof (rule findNearbyStores_two)
    show "inBox (getBoundingBox 40.6892 (- 73.9857) 10) brooklynStore"
      using c by (simp add: inBox_def getBoundingBox_def Let_def brooklynStore_def)
    show "inBox (getBoundingBox 40.6892 (- 73.9857) 10) northStore"
      using c by (simp add: inBox_def getBoundingBox_def Let_def northStore_def)
    show "calculateDistance 40.6892 (- 73.9857) (lat brooklynStore) (lng brooklynStore) = 0"
      by (simp add: brooklynStore_def)
    show "calculateDistance 40.6892 (- 73.9857) (lat northStore) (lng northStore) = northDistance"
      by (simp add: northStore_def northDistance_def)
    show "0 \<le> northDistance" "northDistance \<le> 10" using northDistance_bounds by simp_all
  qed
  then show ?thesis
    by (simp add: nearbyStores_def distanceDb_def request_defs distanceRequest_def emptyRequest_def)
qed

text \<open>
  C4 on the code: the user stands at the Brooklyn store, which carries the drill; the
  hammer is at a store 0.05 degrees of latitude to the north, between 2 and 5 miles
  away. Sorted by distance in ascending order, the hammer comes first and the drill,
  whose nearest store is at distance 0, last: \<^verbatim>\<open>distance || 999\<close> reads the distance 0
  as missing.
\<close>

theorem distance_zero_sorts_last:
  "map (ps_sku \<circ> res_product) (results (search distanceDb distanceRequest)) = [''RR-HT-001'', ''RR-PT-001'']
   \<and> map (map_option ns_distance \<circ> nearestStore) (results (search distanceDb distanceRequest))
       = [Some northDistance, Some 0]
   \<and> 0 < northDistance"
proof -
  have m: "matchingProducts (PRODUCTS distanceDb) distanceRequest = [withScore drill 1, withScore hammer 1]"
    by (simp add: matchingProducts_def distanceRequest_def emptyRequest_def distanceDb_def
          searchTerms_empty textMatch_def truthy_def)
  obtain r1 r2 where rs: "searchResults distanceDb distanceRequest = [r1, r2]"
    and r1: "ps_sku (res_product r1) = ''RR-PT-001''" "map_option ns_distance (nearestStore r1) = Some 0"
    and r2: "ps_sku (res_product r2) = ''RR-HT-001''" "map_option ns_distance (nearestStore r2) = Some northDistance"
    unfolding searchResults_def nearbyStores_distance m
    by (simp add: result_defs request_defs distanceDb_def drillRecord_def hammerRecord_def
          drill_def hammer_def brooklynStore_def northStore_def distanceRequest_def emptyRequest_def)
  have k1: "nearestDistOr999 r1 = 999" using r1 by (auto simp: nearestDistOr999_def split: option.splits)
  have k2: "nearestDistOr999 r2 = northDistance"
    using r2 northDistance_bounds by (auto simp: nearestDistOr999_def split: option.splits)
  have sb: "sortBy distanceRequest = Some ''distance''" "sortOrder distanceRequest = None"
    by (simp_all add: distanceRequest_def emptyRequest_def)
  have "sortedResults distanceDb distanceRequest = [r2, r1]"
    using northDistance_bounds
    by (simp add: sortedResults_def rs sb sortResults_def js_sort_def k1 k2)
  then have "results (search distanceDb distanceRequest) = [r2, r1]"
    by (simp add: results_search request_defs distanceRequest_def emptyRequest_def js_slice_def)
  with r1 r2 northDistance_bounds show ?thesis by simp
qed

section \<open>C3 and C10: a coordinate of 0\<close>

lemma ceiling_one_twentieth: "\<lceil>1 / 20 :: real\<rceil> = 1"
  by (rule ceiling_unique) simp_all

lemma nearby_origin_empty: "findNearbyStores (allStores brooklynDb) 0 0 10 = []"
  by (simp add: findNearbyStores_def getBoundingBox_def inBox_def brooklynDb_def
        brooklynStore_def toRadians_def js_sort_def Let_def)

text \<open>
  C3 on the code: the only store is in Brooklyn and no store is within 10 miles of
  latitude 0, longitude 0, yet the search for "drill" at that point with radius 10
  answers with the Brooklyn offer, \<open>totalResults\<close> 1 and \<open>totalPages\<close> 1, and reports
  the default location as the place searched.
\<close>

theorem search_at_origin_is_search_at_default:
  "findNearbyStores (allStores brooklynDb) 0 0 10 = []
   \<and> results (searchRoute brooklynDb originRequest) = [brooklynResult \<lparr> res_relevanceScore := 5 \<rparr>]
   \<and> totalResults (rsp_pagination (searchRoute brooklynDb originRequest)) = 1
   \<and> totalPages (rsp_pagination (searchRoute brooklynDb originRequest)) = 1
   \<and> rsp_lat (searchRoute brooklynDb originRequest) = 40.6892
   \<and> rsp_lng (searchRoute brooklynDb originRequest) = - 73.9857"
proof -
  define req where "req = sanitize originRequest"
  have f: "query req = Some ''drill''" "r_lat req = Number 0" "r_lng req = Number 0"
    "radius req = Some 10" "r_category req = None" "r_retailer req = None"
    "minPrice req = None" "maxPrice req = None" "inStockOnly req = None"
    "page req = None" "limit req = None" "sortBy req = None" "sortOrder req = None"
    by (simp_all add: req_def sanitize_def originRequest_def emptyRequest_def trim_drill)
  have n: "nearbyStores brooklynDb req = [withDistance brooklynStore 0]"
    by (rule nearbyStores_at_brooklyn) (simp_all add: request_defs f brooklynDb_def)
  have m: "matchingProducts (PRODUCTS brooklynDb) req = [withScore drill 5]"
    by (simp add: matchingProducts_def f brooklynDb_def searchTerms_drill textMatch_def
          truthy_def relevance_drill)
  have s: "searchResults brooklynDb req = [brooklynResult \<lparr> res_relevanceScore := 5 \<rparr>]"
    unfolding searchResults_def n m
    by (simp add: result_defs request_defs f brooklynDb_def drillRecord_def drill_def
          brooklynStore_def brooklynResult_def)
  have r: "results (search brooklynDb req) = [brooklynResult \<lparr> res_relevanceScore := 5 \<rparr>]"
    by (rule results_single [OF s]) (simp_all add: request_defs f)
  have p: "totalResults (rsp_pagination (search brooklynDb req)) = 1"
    "totalPages (rsp_pagination (search brooklynDb req)) = 1"
    by (simp_all add: pagination_search sortedResults_def s request_defs f ceiling_one_twentieth)
  have l: "rsp_lat (search brooklynDb req) = 40.6892" "rsp_lng (search brooklynDb req) = - 73.9857"
    by (simp_all add: search_def request_defs f split: prod.splits)
  from nearby_origin_empty r p l show ?thesis
    unfolding searchRoute_def req_def by blast
qed

text \<open>
  C10: a latitude or longitude of 0, and one that \<^verbatim>\<open>parseFloat\<close> reads as \<^verbatim>\<open>NaN\<close>,
  give the same coordinate as a missing one, 40.6892 or -73.9857, and the same
  response; the nearby stores are computed around the substituted coordinates, which
  are never 0.
\<close>

theorem zero_coordinate_is_missing:
  "userLat (req \<lparr> r_lat := Number 0 \<rparr>) = 40.6892
   \<and> userLat (req \<lparr> r_lat := NotANumber \<rparr>) = 40.6892
   \<and> userLat (req \<lparr> r_lat := Absent \<rparr>) = 40.6892
   \<and> userLng (req \<lparr> r_lng := Number 0 \<rparr>) = - 73.9857
   \<and> userLng (req \<lparr> r_lng := NotANumber \<rparr>) = - 73.9857
   \<and> userLng (req \<lparr> r_lng := Absent \<rparr>) = - 73.9857
   \<and> search d (req \<lparr> r_lat := Number 0 \<rparr>) = search d (req \<lparr> r_lat := Absent \<rparr>)
   \<and> search d (req \<lparr> r_lat := NotANumber \<rparr>) = search d (req \<lparr> r_lat := Absent \<rparr>)
   \<and> search d (req \<lparr> r_lng := Number 0 \<rparr>) = search d (req \<lparr> r_lng := Absent \<rparr>)
   \<and> search d (req \<lparr> r_lng := NotANumber \<rparr>) = search d (req \<lparr> r_lng := Absent \<rparr>)
   \<and> nearbyStores d req = findNearbyStores (allStores d) (userLat req) (userLng req) (searchRadius req)
   \<and> userLat req \<noteq> 0 \<and> userLng req \<noteq> 0"
proof -
  have nz: "orDefault v dflt \<noteq> 0" if "dflt \<noteq> 0" for v dflt
    using that by (cases v) auto
  have "userLat req \<noteq> 0" "userLng req \<noteq> 0"
    by (simp_all add: userLat_def userLng_def nz defaultLat_def defaultLng_def)
  then show ?thesis
    by (simp add: search_def sortedResults_def searchResults_def nearbyStores_def
          matchingProducts_def request_defs Let_def)
qed

section \<open>C9: the search changes no shared array\<close>

lemma preserves_return: "Q x \<Longrightarrow> preserves n (State_Monad.return x) Q"
  by (simp add: preserves_def)

lemma preserves_bind:
  assumes "preserves n m P" and "\<And>x. P x \<Longrightarrow> preserves n (f x) Q"
  shows "preserves n (m \<bind> f) Q"
  unfolding preserves_def
proof (intro allI impI)
  fix h :: heap assume h: "n \<le> free h"
  obtain x h1 where m: "run_state m h = (x, h1)" by (cases "run_state m h")
  with assms(1) h have 1: "n \<le> free h1" "\<forall>a < n. cells h1 a = cells h a" "P x"
    by (auto simp: preserves_def)
  obtain y h2 where f: "run_state (f x) h1 = (y, h2)" by (cases "run_state (f x) h1")
  with assms(2) [OF 1(3)] 1(1) have 2: "n \<le> free h2" "\<forall>a < n. cells h2 a = cells h1 a" "Q y"
    by (auto simp: preserves_def)
  from m f 1 2 show "case run_state (m \<bind> f) h of (r, h') \<Rightarrow>
           n \<le> free h' \<and> (\<forall>a < n. cells h' a = cells h a) \<and> Q r"
    by simp
qed

lemma preserves_weaken:
  "preserves n m P \<Longrightarrow> (\<And>x. P x \<Longrightarrow> Q x) \<Longrightarrow> preserves n m Q"
  by (fastforce simp: preserves_def)

lemma preserves_alloc: "preserves n (alloc xs) (\<lambda>r. n \<le> r)"
  by (simp add: preserves_def alloc_def)

lemma preserves_readA: "preserves n (readA a) (\<lambda>_. True)"
  by (simp add: preserves_def readA_def)

lemma preserves_writeA: "n \<le> a \<Longrightarrow> preserves n (writeA a xs) (\<lambda>_. True)"
  by (simp add: preserves_def writeA_def)

lemma preserves_new: "preserves n arr_new (\<lambda>r. n \<le> r)"
  unfolding arr_new_def by (rule preserves_alloc)

lemma preserves_filter: "preserves n (arr_filter P a) (\<lambda>r. n \<le> r)"
  unfolding arr_filter_def by (rule preserves_bind [OF preserves_readA preserves_alloc])

lemma preserves_map: "preserves n (arr_map f a) (\<lambda>r. n \<le> r)"
  unfolding arr_map_def by (rule preserves_bind [OF preserves_readA preserves_alloc])

lemma preserves_copy: "preserves n (arr_copy a) (\<lambda>r. n \<le> r)"
  unfolding arr_copy_def by (rule preserves_bind [OF preserves_readA preserves_alloc])

lemma preserves_slice: "preserves n (arr_slice a i j) (\<lambda>r. n \<le> r)"
  unfolding arr_slice_def by (rule preserves_bind [OF preserves_readA preserves_alloc])

lemma preserves_sort: "n \<le> a \<Longrightarrow> preserves n (arr_sort cmp a) (\<lambda>r. n \<le> r)"
  unfolding arr_sort_def
  by (intro preserves_bind [OF preserves_readA] preserves_bind [OF preserves_writeA]
        preserves_return)

lemma preserves_push: "n \<le> a \<Longrightarrow> preserves n (arr_push a x) (\<lambda>_. True)"
  unfolding arr_push_def
  by (intro preserves_bind [OF preserves_readA] preserves_writeA)

lemma preserves_forEach:
  assumes "\<And>x. preserves n (f x) (\<lambda>_. True)"
  shows "preserves n (forEach f xs) (\<lambda>_. True)"
  by (induction xs) (auto intro: preserves_return preserves_bind assms)

lemma preserves_findNearbyStoresM:
  "preserves n (findNearbyStoresM stores lat0 lng0 R) (\<lambda>r. n \<le> r)"
  unfolding findNearbyStoresM_def Let_def
  by (intro preserves_bind [OF preserves_filter] preserves_bind [OF preserves_map]
        preserves_sort)

lemma preserves_matchingProductsM:
  "preserves n (matchingProductsM products req) (\<lambda>r. True)"
proof -
  have any: "preserves n (arr_filter P a) (\<lambda>r. True)" for P a
    by (rule preserves_weaken [OF preserves_filter]) simp
  have anym: "preserves n (arr_map f a) (\<lambda>r. True)" for f a
    by (rule preserves_weaken [OF preserves_map]) simp
  have ret: "preserves n (State_Monad.return a) (\<lambda>r::ref. True)" for a
    by (rule preserves_return) simp
  have step1: "preserves n (if c then arr_map f a \<bind> arr_filter P else arr_map g a) (\<lambda>r. True)"
    for c f g a P
    by (auto intro: preserves_bind anym any)
  have step2: "preserves n (if c then arr_filter P a else State_Monad.return a) (\<lambda>r. True)"
    for c P a
    by (auto intro: any ret)
  show ?thesis
    unfolding matchingProductsM_def Let_def
    by (intro preserves_bind [OF step1] preserves_bind [OF step2] step2)
qed

lemma preserves_productTurnM:
  assumes "n \<le> resultsRef"
  shows "preserves n (productTurnM inventoryRef resultsRef ids storeMap stockOnly lo hi p) (\<lambda>_. True)"
  unfolding productTurnM_def Let_def
  by (intro preserves_bind [OF preserves_filter] preserves_bind [OF preserves_readA]
        preserves_bind [OF preserves_copy] preserves_bind [OF preserves_sort]
        preserves_bind [OF preserves_slice] preserves_bind [OF preserves_map]
        preserves_push assms)
     (auto intro!: preserves_return preserves_bind [OF preserves_filter] preserves_bind [OF preserves_readA]
        preserves_bind [OF preserves_copy] preserves_bind [OF preserves_sort]
        preserves_bind [OF preserves_slice] preserves_bind [OF preserves_map]
        preserves_push assms)

lemma preserves_sortResultsM:
  "n \<le> rs \<Longrightarrow> preserves n (sortResultsM sby ord rs) (\<lambda>r. n \<le> r)"
  unfolding sortResultsM_def by (auto intro: preserves_sort)

lemma preserves_searchM:
  "preserves n (searchM productsRef storesRef inventoryRef req) (\<lambda>_. True)"
  unfolding searchM_def Let_def
  by (intro preserves_bind [OF preserves_matchingProductsM]
        preserves_bind [OF preserves_findNearbyStoresM]
        preserves_bind [OF preserves_readA] preserves_bind [OF preserves_new]
        preserves_bind [OF preserves_map]
        preserves_bind [OF preserves_forEach] preserves_bind [OF preserves_sortResultsM]
        preserves_bind [OF preserves_slice] preserves_productTurnM preserves_return)
     simp_all

lemma searchM_frame:
  "\<forall>a < free (h :: heap).
     cells (snd (run_state (searchM productsRef storesRef inventoryRef req) h)) a = cells h a"
proof -
  obtain r h' where run: "run_state (searchM productsRef storesRef inventoryRef req) h = (r, h')"
    by (cases "run_state (searchM productsRef storesRef inventoryRef req) h")
  with preserves_searchM [of "free h" productsRef storesRef inventoryRef req]
  have "\<forall>a < free h. cells h' a = cells h a"
    by (auto simp: preserves_def)
  with run show ?thesis by simp
qed


lemma alloc_run [simp]:
  "run_state (alloc xs) h = (free h, h \<lparr> cells := (cells h)(free h := xs), free := Suc (free h) \<rparr>)"
  by (simp add: alloc_def)

lemma readA_run [simp]: "run_state (readA a) h = (cells h a, h)"
  by (simp add: readA_def)

lemma writeA_run [simp]: "run_state (writeA a xs) h = ((), h \<lparr> cells := (cells h)(a := xs) \<rparr>)"
  by (simp add: writeA_def)

lemmas arr_defs = arr_new_def arr_filter_def arr_map_def arr_copy_def arr_slice_def
  arr_sort_def arr_push_def

lemma insort_cmp_map:
  "insort_cmp cmp (f x) (map f xs) = map f (insort_cmp (\<lambda>a b. cmp (f a) (f b)) x xs)"
  by (induction xs) simp_all

lemma js_sort_map:
  "js_sort cmp (map f xs) = map f (js_sort (\<lambda>a b. cmp (f a) (f b)) xs)"
  by (induction xs) (simp_all add: js_sort_def insort_cmp_map)

lemma js_slice_map: "js_slice (map f xs) i j = map f (js_slice xs i j)"
  by (simp add: js_slice_def Let_def take_map drop_map)

lemma findNearbyStoresM_run:
  assumes "cells h sr = map EStore stores" "sr < free h"
  shows "\<exists>r h'. run_state (findNearbyStoresM sr la lo R) h = (r, h')
           \<and> free h \<le> r \<and> r < free h'
           \<and> cells h' r = map ENearby (findNearbyStores stores la lo R)
           \<and> (\<forall>a < free h. cells h' a = cells h a)"
  using assms
  by (simp add: findNearbyStoresM_def findNearbyStores_def arr_defs Let_def filter_map comp_def
        js_sort_map)

lemma matchingProductsM_run:
  assumes "cells h pr = map EProduct ps" "pr < free h"
  shows "\<exists>r h'. run_state (matchingProductsM pr req) h = (r, h')
           \<and> free h \<le> r \<and> r < free h'
           \<and> cells h' r = map EScored (matchingProducts ps req)
           \<and> (\<forall>a < free h. cells h' a = cells h a)"
  using assms
  by (simp add: matchingProductsM_def matchingProducts_def textMatch_def arr_defs Let_def
        filter_map comp_def)


lemma js_sort_nonempty [simp]: "js_sort cmp xs = [] \<longleftrightarrow> xs = []"
  by (metis length_0_conv length_js_sort)

lemma productTurnM_run:
  assumes "cells h ir = map EInventory invs" "ir < free h" "rr < free h" "ir \<noteq> rr"
  shows "\<exists>h'. run_state (productTurnM ir rr (set (map storeId nearbyS)) (storeMapOf nearbyS) stockOnly lo hi p) h = ((), h')
           \<and> free h \<le> free h'
           \<and> cells h' rr = cells h rr @
               (case productResult invs nearbyS stockOnly lo hi p of
                  None \<Rightarrow> [] | Some r \<Rightarrow> [EResult r])
           \<and> (\<forall>a < free h. a \<noteq> rr \<longrightarrow> cells h' a = cells h a)"
  using assms
  by (simp add: productTurnM_def productResult_def filteredInvOf_def productInventory_def
        shapeResult_def bestPriceOf_def nearestInvOf_def arr_defs Let_def filter_map comp_def
        js_sort_map js_slice_map hd_map)

lemma forEach_run:
  assumes "cells h ir = map EInventory invs" "ir < free h" "rr < free h" "ir \<noteq> rr"
  shows "\<exists>h'. run_state (forEach (\<lambda>p. productTurnM ir rr (set (map storeId nearbyS)) (storeMapOf nearbyS) stockOnly lo hi (theScored p))
                          (map EScored ps)) h = ((), h')
           \<and> free h \<le> free h'
           \<and> cells h' rr = cells h rr @
                map EResult (List.map_filter (productResult invs nearbyS stockOnly lo hi) ps)
           \<and> (\<forall>a < free h. a \<noteq> rr \<longrightarrow> cells h' a = cells h a)"
  using assms
proof (induction ps arbitrary: h)
  case Nil
  then show ?case by (simp add: List.map_filter_def)
next
  case (Cons p ps)
  from productTurnM_run [OF Cons.prems, of nearbyS stockOnly lo hi p]
  obtain h1 where 1: "run_state (productTurnM ir rr (set (map storeId nearbyS)) (storeMapOf nearbyS) stockOnly lo hi p) h = ((), h1)"
    and f1: "free h \<le> free h1"
    and r1: "cells h1 rr = cells h rr @
               (case productResult invs nearbyS stockOnly lo hi p of
                  None \<Rightarrow> [] | Some r \<Rightarrow> [EResult r])"
    and k1: "\<forall>a < free h. a \<noteq> rr \<longrightarrow> cells h1 a = cells h a"
    by blast
  have pre: "cells h1 ir = map EInventory invs" "ir < free h1" "rr < free h1"
    using Cons.prems f1 k1 by auto
  from Cons.IH [OF pre Cons.prems(4)]
  obtain h2 where 2: "run_state (forEach (\<lambda>p. productTurnM ir rr (set (map storeId nearbyS)) (storeMapOf nearbyS) stockOnly lo hi (theScored p))
                          (map EScored ps)) h1 = ((), h2)"
    and f2: "free h1 \<le> free h2"
    and r2: "cells h2 rr = cells h1 rr @
                map EResult (List.map_filter (productResult invs nearbyS stockOnly lo hi) ps)"
    and k2: "\<forall>a < free h1. a \<noteq> rr \<longrightarrow> cells h2 a = cells h1 a"
    by blast
  have "run_state (forEach (\<lambda>p. productTurnM ir rr (set (map storeId nearbyS)) (storeMapOf nearbyS) stockOnly lo hi (theScored p))
                          (map EScored (p # ps))) h = ((), h2)"
    by (simp add: 1 2 del: set_map)
  moreover have "free h \<le> free h2" using f1 f2 by simp
  moreover have "cells h2 rr = cells h rr @
                map EResult (List.map_filter (productResult invs nearbyS stockOnly lo hi) (p # ps))"
    by (simp add: r1 r2 List.map_filter_def split: option.splits)
  moreover have "\<forall>a < free h. a \<noteq> rr \<longrightarrow> cells h2 a = cells h a"
    using f1 k1 k2 by auto
  ultimately show ?case by blast
qed

lemma sortResultsM_run:
  assumes "cells h rr = map EResult rs"
  shows "run_state (sortResultsM sby ord rr) h =
           (rr, h \<lparr> cells := (cells h)(rr := map EResult (sortResults sby ord rs)) \<rparr>)"
  using assms
  by (simp add: sortResultsM_def sortResults_def arr_defs js_sort_map Let_def cong: if_cong)

lemma searchM_response:
  assumes "cells h pr = map EProduct (PRODUCTS d)" "cells h sr = map EStore (allStores d)"
    and "cells h ir = map EInventory (inventoryOf d)"
    and "pr < free h" "sr < free h" "ir < free h"
  shows "fst (run_state (searchM pr sr ir req) h) = search d req"
proof -
  from matchingProductsM_run [OF assms(1,4), of req]
  obtain m h1 where 1: "run_state (matchingProductsM pr req) h = (m, h1)"
    and m1: "cells h1 m = map EScored (matchingProducts (PRODUCTS d) req)"
    and f1: "free h \<le> free h1" and k1: "\<forall>a < free h. cells h1 a = cells h a"
    by force
  have s1: "cells h1 sr = map EStore (allStores d)" "sr < free h1"
    using assms f1 k1 by auto
  from findNearbyStoresM_run [OF s1, of "userLat req" "userLng req" "searchRadius req"]
  obtain k h2 where 2: "run_state (findNearbyStoresM sr (userLat req) (userLng req) (searchRadius req)) h1
        = (k, h2)"
    and n2: "cells h2 k = map ENearby (nearbyStores d req)"
    and f2: "free h1 \<le> free h2" and k2: "\<forall>a < free h1. cells h2 a = cells h1 a"
    unfolding nearbyStores_def by force
  define ids where "ids = map (\<lambda>n. EString (storeId n)) (nearbyStores d req)"
  define h2' where "h2' = h2 \<lparr> cells := (cells h2)(free h2 := ids), free := Suc (free h2) \<rparr>"
  have ids: "run_state (arr_map (\<lambda>s. EString (storeId (theNearby s))) k) h2 = (free h2, h2')"
    by (simp add: arr_map_def n2 ids_def h2'_def comp_def)
  have i2: "set (map theString (cells h2' (free h2))) = set (map storeId (nearbyStores d req))"
    by (simp add: h2'_def ids_def comp_def)
  have k_lt: "k < free h2"
    using findNearbyStoresM_run [OF s1, of "userLat req" "userLng req" "searchRadius req"] 2 by auto
  have n2': "cells h2' k = map ENearby (nearbyStores d req)"
    using n2 k_lt by (simp add: h2'_def)
  define rr where "rr = free h2'"
  define h3 where "h3 = h2' \<lparr> cells := (cells h2')(rr := []), free := Suc rr \<rparr>"
  have 3: "run_state arr_new h2' = (rr, h3)" by (simp add: arr_new_def rr_def h3_def)
  have m_lt: "m < free h1"
    using matchingProductsM_run [OF assms(1,4), of req] 1 by auto
  have i3: "cells h3 ir = map EInventory (inventoryOf d)" "ir < free h3" "rr < free h3" "ir \<noteq> rr"
    and m3: "cells h3 m = map EScored (matchingProducts (PRODUCTS d) req)"
    and r3: "cells h3 rr = []"
    using assms f1 f2 k1 k2 m1 m_lt by (auto simp: h3_def rr_def h2'_def)
  from forEach_run [OF i3, of "nearbyStores d req" "stockOnlyOf req" "minPrice req" "maxPrice req"
      "matchingProducts (PRODUCTS d) req"]
  obtain h4 where 4: "run_state (forEach (\<lambda>p. productTurnM ir rr (set (map storeId (nearbyStores d req)))
          (storeMapOf (nearbyStores d req)) (stockOnlyOf req)
          (minPrice req) (maxPrice req) (theScored p)) (map EScored (matchingProducts (PRODUCTS d) req))) h3
        = ((), h4)"
    and r4: "cells h4 rr = map EResult (searchResults d req)"
    unfolding searchResults_def r3 by auto
  have 5: "run_state (sortResultsM (case sortBy req of None \<Rightarrow> ''relevance'' | Some s \<Rightarrow> s)
                  (case sortOrder req of None \<Rightarrow> ''asc'' | Some s \<Rightarrow> s) rr) h4
      = (rr, h4 \<lparr> cells := (cells h4)(rr := map EResult (sortedResults d req)) \<rparr>)"
    unfolding sortedResults_def by (rule sortResultsM_run [OF r4])
  show ?thesis
    by (simp add: searchM_def search_def paginate_def 1 2 ids 3 4 5 n2' i2 m3 comp_def arr_slice_def
          js_slice_map Let_def del: set_map)
qed

text \<open>
  C9: on a store where three arrays hold the catalog, the stores and the inventory,
  the handler answers with the response of \<open>search\<close> and leaves these three arrays, and
  every other array that existed before the call, with the elements they had: the
  same products (with no \<open>relevanceScore\<close>), stores and inventory records, in the same
  order.
\<close>

theorem search_has_no_side_effect:
  assumes "cells h pr = map EProduct (PRODUCTS d)" "cells h sr = map EStore (allStores d)"
    and "cells h ir = map EInventory (inventoryOf d)"
    and "pr < free h" "sr < free h" "ir < free h"
  shows "fst (run_state (searchM pr sr ir req) h) = search d req
       \<and> cells (snd (run_state (searchM pr sr ir req) h)) pr = map EProduct (PRODUCTS d)
       \<and> cells (snd (run_state (searchM pr sr ir req) h)) sr = map EStore (allStores d)
       \<and> cells (snd (run_state (searchM pr sr ir req) h)) ir = map EInventory (inventoryOf d)
       \<and> (\<forall>a < free h. cells (snd (run_state (searchM pr sr ir req) h)) a = cells h a)"
  using searchM_response [OF assms, of req] searchM_frame [of h pr sr ir req] assms
  by simp

theorem search_has_no_side_effect_witness:
  "cells brooklynHeap 0 = map EProduct (PRODUCTS brooklynDb)
   \<and> cells brooklynHeap 1 = map EStore (allStores brooklynDb)
   \<and> cells brooklynHeap 2 = map EInventory (inventoryOf brooklynDb)
   \<and> 0 < free brooklynHeap \<and> 1 < free brooklynHeap \<and> 2 < free brooklynHeap
   \<and> fst (run_state (searchM 0 1 2 emptyRequest) brooklynHeap) = search brooklynDb emptyRequest
   \<and> cells (snd (run_state (searchM 0 1 2 emptyRequest) brooklynHeap)) 0 = [EProduct drill]
   \<and> cells (snd (run_state (searchM 0 1 2 emptyRequest) brooklynHeap)) 1 = [EStore brooklynStore]
   \<and> cells (snd (run_state (searchM 0 1 2 emptyRequest) brooklynHeap)) 2 = [EInventory drillRecord]"
proof -
  have a: "cells brooklynHeap 0 = map EProduct (PRODUCTS brooklynDb)"
    "cells brooklynHeap 1 = map EStore (allStores brooklynDb)"
    "cells brooklynHeap 2 = map EInventory (inventoryOf brooklynDb)"
    "0 < free brooklynHeap" "1 < free brooklynHeap" "2 < free brooklynHeap"
    by (simp_all add: brooklynHeap_def brooklynDb_def)
  from search_has_no_side_effect [OF a, of emptyRequest] a
  show ?thesis by (simp add: brooklynDb_def)
qed

end
